theory Spec2Isabelle
  imports Complex_Main
begin

section \<open>The spamd client library (libspamc.c, utils.c)\<close>

text \<open>
  A shallow embedding of the protocol client of \<^verbatim>\<open>src/spamd/libspamc.c\<close> and of the
  read/write helpers of \<^verbatim>\<open>src/spamd/utils.c\<close>. C \<^verbatim>\<open>int\<close>, \<^verbatim>\<open>long\<close> and
  \<^verbatim>\<open>off_t\<close> values are \<open>int\<close> or \<open>nat\<close> (no claim below depends on their overflow,
  except the \<^verbatim>\<open>int divider\<close> of the numeric parser, whose wrap-around is written out);
  the arithmetic on \<^verbatim>\<open>float\<close> values is exact, on rationals (a value is rounded to the
  precision of a \<^verbatim>\<open>float\<close> only where it is printed); \<^verbatim>\<open>char\<close> buffers
  are \<open>string\<close>s; descriptors are explicit streams; \<^verbatim>\<open>malloc\<close> always succeeds.
\<close>

subsection \<open>Exit statuses and constants\<close>

text \<open>
  Modelled from the spec: the exit/verdict taxonomy of section 6 (Ok, IsSpam, NotSpam, TooBig,
  IoError, OsError, SoftwareError, Protocol, Unavailable, NoHost, TempFail, NoPermission,
  Usage, OutputMessage). The headers \<^verbatim>\<open>libspamc.h\<close> and \<^verbatim>\<open>sysexits.h\<close> are not
  among the sources; the numbers are those of BSD \<^verbatim>\<open>sysexits.h\<close>, and those of
  \<^verbatim>\<open>libspamc.h\<close> for the four verdict codes (\<^verbatim>\<open>EX_TOOBIG\<close> is \<^verbatim>\<open>EX__MAX+666\<close> as
  \<^verbatim>\<open>ESC_PASSTHROUGHRAW\<close> in libspamc.c). All of them are non-negative process exit codes.
\<close>

definition EX_OK :: int where "EX_OK = 0"
definition EX_USAGE :: int where "EX_USAGE = 64"
definition EX_DATAERR :: int where "EX_DATAERR = 65"
definition EX_NOHOST :: int where "EX_NOHOST = 68"
definition EX_UNAVAILABLE :: int where "EX_UNAVAILABLE = 69"
definition EX_SOFTWARE :: int where "EX_SOFTWARE = 70"
definition EX_OSERR :: int where "EX_OSERR = 71"
definition EX_IOERR :: int where "EX_IOERR = 74"
definition EX_TEMPFAIL :: int where "EX_TEMPFAIL = 75"
definition EX_PROTOCOL :: int where "EX_PROTOCOL = 76"
definition EX_NOPERM :: int where "EX_NOPERM = 77"
definition EX_NOTSPAM :: int where "EX_NOTSPAM = 0"
definition EX_ISSPAM :: int where "EX_ISSPAM = 1"
definition EX_TOOBIG :: int where "EX_TOOBIG = 866"
definition EX_OUTPUTMESSAGE :: int where "EX_OUTPUTMESSAGE = 867"

lemmas ex_codes =
  EX_OK_def EX_USAGE_def EX_DATAERR_def EX_NOHOST_def EX_UNAVAILABLE_def EX_SOFTWARE_def
  EX_OSERR_def EX_IOERR_def EX_TEMPFAIL_def EX_PROTOCOL_def EX_NOPERM_def EX_NOTSPAM_def
  EX_ISSPAM_def EX_TOOBIG_def EX_OUTPUTMESSAGE_def

text \<open>\<^verbatim>\<open>#define MAX_CONNECT_RETRIES 3\<close>, \<^verbatim>\<open>static const int EXPANSION_ALLOWANCE = 16384\<close>.\<close>

definition MAX_CONNECT_RETRIES :: nat where "MAX_CONNECT_RETRIES = 3"
definition EXPANSION_ALLOWANCE :: int where "EXPANSION_ALLOWANCE = 16384"

text \<open>
  The largest C \<^verbatim>\<open>int\<close>. The sizes the code computes from the size limit \<^verbatim>\<open>max_len\<close>
  (\<^verbatim>\<open>max_len + 1\<close>, \<^verbatim>\<open>max_len + EXPANSION_ALLOWANCE + 1\<close>) are those of the integers as long
  as they do not exceed it.
\<close>

definition INT_MAX :: int where "INT_MAX = 2147483647"

abbreviation LF :: char where "LF \<equiv> CHR 0x0A"
abbreviation CR :: char where "CR \<equiv> CHR 0x0D"
abbreviation NUL :: char where "NUL \<equiv> CHR 0x00"

text \<open>
  A C function that divides by zero, reads an uninitialised variable or passes to
  \<^verbatim>\<open>free\<close> a pointer that \<^verbatim>\<open>malloc\<close> did not return has no result; every other run returns.
\<close>

datatype 'a outcome = Returns 'a | Undefined

subsection \<open>Descriptors (utils.c)\<close>

text \<open>
  A readable descriptor is the list of what its next \<^verbatim>\<open>read\<close> calls will find: bytes
  that have arrived, or an error (\<^verbatim>\<open>read\<close> returns -1; a timeout is one of them, see
  \<^verbatim>\<open>timeout_read\<close>). The empty list is end of file. A \<^verbatim>\<open>read\<close> of \<open>n\<close> bytes takes at
  most \<open>n\<close> bytes of the first chunk.
\<close>

datatype rd_event = Bytes string | Fail

type_synonym fd_in = "rd_event list"

fun timeout_read :: "fd_in \<Rightarrow> nat \<Rightarrow> int \<times> string \<times> fd_in" where
  "timeout_read [] n = (0, [], [])"
| "timeout_read (Fail # es) n = (-1, [], es)"
| "timeout_read (Bytes s # es) n =
     (if s = [] then timeout_read es n
      else if length s \<le> n then (int (length s), s, es)
      else (int n, take n s, Bytes (drop n s) # es))"

text \<open>The bytes still to come on a descriptor, and a size that every successful read lowers.\<close>

fun pending :: "fd_in \<Rightarrow> string" where
  "pending [] = []"
| "pending (Fail # es) = pending es"
| "pending (Bytes s # es) = s @ pending es"

fun fd_size :: "fd_in \<Rightarrow> nat" where
  "fd_size [] = 0"
| "fd_size (Fail # es) = Suc (fd_size es)"
| "fd_size (Bytes s # es) = Suc (length s + fd_size es)"

lemma timeout_read_size:
  "timeout_read fd n = (k, bs, fd') \<Longrightarrow> 0 < k \<Longrightarrow> fd_size fd' < fd_size fd"
  by (induction fd n rule: timeout_read.induct) (auto split: if_splits)

lemma timeout_read_size_le:
  "timeout_read fd n = (k, bs, fd') \<Longrightarrow> fd_size fd' \<le> fd_size fd"
  by (induction fd n rule: timeout_read.induct) (auto split: if_splits)

lemma timeout_read_length:
  "timeout_read fd n = (k, bs, fd') \<Longrightarrow> 0 \<le> k \<Longrightarrow> k = int (length bs) \<and> length bs \<le> n"
  by (induction fd n rule: timeout_read.induct) (auto split: if_splits)

lemma timeout_read_range:
  "timeout_read fd n = (k, bs, fd') \<Longrightarrow> -1 \<le> k \<and> k \<le> int n"
  by (induction fd n rule: timeout_read.induct) (auto split: if_splits)

text \<open>
  \<^verbatim>\<open>full_read (fd, buf, min, len)\<close>: read until \<^verbatim>\<open>min\<close> bytes are there, end of file, or an
  error. The accumulator \<open>acc\<close> is \<^verbatim>\<open>buf[0..total)\<close>; the result is the return value, the
  bytes stored in \<open>buf\<close> and the descriptor afterwards.
\<close>

function full_read_loop :: "fd_in \<Rightarrow> int \<Rightarrow> int \<Rightarrow> string \<Rightarrow> int \<times> string \<times> fd_in" where
  "full_read_loop fd minb len acc =
     (if int (length acc) < minb then
        (case timeout_read fd (nat (len - int (length acc))) of
           (thistime, bs, fd') \<Rightarrow>
             if thistime < 0 then (-1, acc, fd')
             else if thistime = 0 then (int (length acc), acc, fd')
             else full_read_loop fd' minb len (acc @ bs))
      else (int (length acc), acc, fd))"
  by pat_completeness auto
termination
  by (relation "measure (\<lambda>(fd, minb, len, acc). fd_size fd)")
     (auto dest: timeout_read_size [OF sym])

declare full_read_loop.simps [simp del]

definition full_read :: "fd_in \<Rightarrow> int \<Rightarrow> int \<Rightarrow> int \<times> string \<times> fd_in" where
  "full_read fd minb len = full_read_loop fd minb len []"

text \<open>
  A writable descriptor either accepts every write or fails every write; \<open>written\<close> is what
  reached it. \<^verbatim>\<open>full_write (fd, buf, len)\<close> returns \<open>len\<close>, or the negative result of the
  failing \<^verbatim>\<open>write\<close>; with \<open>len = 0\<close> it never calls \<^verbatim>\<open>write\<close>.
\<close>

record fd_out =
  accepts :: bool
  written :: string

definition full_write :: "fd_out \<Rightarrow> string \<Rightarrow> int \<times> fd_out" where
  "full_write fd bs =
     (if bs = [] then (0, fd)
      else if accepts fd then (int (length bs), fd\<lparr>written := written fd @ bs\<rparr>)
      else (-1, fd))"

subsection \<open>Connecting: try_to_connect\<close>

datatype errno =
    EBADF | EFAULT | ENOTSOCK | EISCONN | EADDRINUSE | EINPROGRESS | EALREADY | EAFNOSUPPORT
  | ECONNREFUSED | ETIMEDOUT | ENETUNREACH | EACCES
  | EPROTONOSUPPORT | EINVAL | ENFILE | EMFILE | ENOBUFS | ENOMEM | EOTHER

type_synonym in_addr = nat

record sockaddr_in =
  sin_addr :: in_addr
  sin_port :: int

text \<open>
  The network as the client sees it: whether \<^verbatim>\<open>socket()\<close> gives a descriptor, the result
  of the \<^verbatim>\<open>connect()\<close> call of loop iteration \<open>numloops\<close> to an address (\<open>None\<close> is
  success), and what the daemon at an address sends back.
\<close>

record network =
  socket_call :: "errno option"
  connect_call :: "nat \<Rightarrow> sockaddr_in \<Rightarrow> errno option"
  daemon :: "sockaddr_in \<Rightarrow> fd_in"

text \<open>
  What a call of \<^verbatim>\<open>try_to_connect\<close> did: its return value, \<^verbatim>\<open>*sockptr\<close> (the peer the
  socket is connected to), the \<^verbatim>\<open>connect()\<close> calls in order, each with the socket and the
  address it was given, and whether the socket was closed. Sockets are numbered in the
  order \<^verbatim>\<open>socket()\<close> makes them: \<^verbatim>\<open>try_to_connect\<close> calls \<^verbatim>\<open>socket()\<close> once, before the
  loop, so \<^verbatim>\<open>mysock\<close> is socket 0 throughout.
\<close>

record connection =
  status :: int
  sockptr :: "sockaddr_in option"
  attempts :: "(nat \<times> sockaddr_in) list"
  closed :: bool

text \<open>
  \<^verbatim>\<open>htons\<close> takes a 16-bit value: the port a \<^verbatim>\<open>sockaddr_in\<close> filled by
  \<^verbatim>\<open>sin_port=htons(hent_port)\<close> names is \<^verbatim>\<open>hent_port\<close> reduced to 16 bits. \<open>sin_port\<close> is that
  port number (the byte order of the field is not modelled).
\<close>

definition htons :: "int \<Rightarrow> int" where
  "htons p = p mod 65536"

definition socket_failure :: "errno \<Rightarrow> int" where
  "socket_failure e =
     (case e of
        EPROTONOSUPPORT \<Rightarrow> EX_SOFTWARE | EINVAL \<Rightarrow> EX_SOFTWARE
      | EACCES \<Rightarrow> EX_NOPERM
      | ENFILE \<Rightarrow> EX_OSERR | EMFILE \<Rightarrow> EX_OSERR | ENOBUFS \<Rightarrow> EX_OSERR | ENOMEM \<Rightarrow> EX_OSERR
      | _ \<Rightarrow> EX_SOFTWARE)"

definition connect_failure :: "errno \<Rightarrow> int" where
  "connect_failure e =
     (case e of
        ECONNREFUSED \<Rightarrow> EX_UNAVAILABLE | ETIMEDOUT \<Rightarrow> EX_UNAVAILABLE
      | ENETUNREACH \<Rightarrow> EX_UNAVAILABLE
      | EACCES \<Rightarrow> EX_NOPERM
      | _ \<Rightarrow> EX_SOFTWARE)"

text \<open>
  The copy of \<^verbatim>\<open>hent->h_addr_list\<close> into \<^verbatim>\<open>inaddrlist[256]\<close>: \<open>hostnum\<close> stops at 256.
\<close>

definition copy_h_addr_list :: "in_addr list \<Rightarrow> nat \<times> in_addr list" where
  "copy_h_addr_list l = (if length l > 256 then (256, take 256 l) else (length l, l))"

text \<open>
  The retry loop, on the socket \<open>mysock\<close>. \<open>origerr\<close> is \<open>None\<close> while the C variable is
  uninitialised; with a host list, \<^verbatim>\<open>numloops % hostnum\<close> divides by \<open>hostnum\<close>.
\<close>

function connect_loop ::
  "network \<Rightarrow> nat \<Rightarrow> sockaddr_in option \<Rightarrow> in_addr list \<Rightarrow> nat \<Rightarrow> int \<Rightarrow> nat \<Rightarrow>
   errno option \<Rightarrow> (nat \<times> sockaddr_in) list \<Rightarrow> connection outcome" where
  "connect_loop net mysock argaddr inaddrlist hostnum hent_port numloops origerr tried =
     (if numloops < MAX_CONNECT_RETRIES then
        (case (case argaddr of
                 Some a \<Rightarrow> Some a
               | None \<Rightarrow>
                   if hostnum = 0 then None
                   else Some \<lparr>sin_addr = inaddrlist ! (numloops mod hostnum),
                              sin_port = htons hent_port\<rparr>) of
           None \<Rightarrow> Undefined
         | Some addr \<Rightarrow>
             (case connect_call net numloops addr of
                Some e \<Rightarrow>
                  connect_loop net mysock argaddr inaddrlist hostnum hent_port (Suc numloops)
                    (Some e) (tried @ [(mysock, addr)])
              | None \<Rightarrow>
                  Returns \<lparr>status = EX_OK, sockptr = Some addr,
                           attempts = tried @ [(mysock, addr)], closed = False\<rparr>))
      else
        (case origerr of
           None \<Rightarrow> Undefined
         | Some e \<Rightarrow>
             Returns \<lparr>status = connect_failure e, sockptr = None, attempts = tried,
                      closed = True\<rparr>))"
  by pat_completeness auto
termination
  by (relation "measure (\<lambda>(net, mysock, argaddr, inaddrlist, hostnum, hent_port, numloops,
        origerr, tried). MAX_CONNECT_RETRIES - numloops)") auto

declare connect_loop.simps [simp del]

definition try_to_connect ::
  "network \<Rightarrow> sockaddr_in option \<Rightarrow> in_addr list option \<Rightarrow> int \<Rightarrow> connection outcome" where
  "try_to_connect net argaddr hent hent_port =
     (if argaddr = None \<and> hent = None then
        Returns \<lparr>status = EX_SOFTWARE, sockptr = None, attempts = [], closed = False\<rparr>
      else if argaddr \<noteq> None \<and> hent \<noteq> None then
        Returns \<lparr>status = EX_SOFTWARE, sockptr = None, attempts = [], closed = False\<rparr>
      else
        (case (case hent of None \<Rightarrow> (0, []) | Some l \<Rightarrow> copy_h_addr_list l) of
           (hostnum, inaddrlist) \<Rightarrow>
             (case socket_call net of
                Some e \<Rightarrow>
                  Returns \<lparr>status = socket_failure e, sockptr = None, attempts = [],
                           closed = False\<rparr>
              | None \<Rightarrow>
                  connect_loop net 0 argaddr inaddrlist hostnum hent_port 0 None [])))"

text \<open>
  The address of the host list that attempt \<open>n\<close> of the rotation goes to, and the
  \<^verbatim>\<open>connect()\<close> call of that attempt: the socket of the call and that address.
\<close>

definition rotation_target :: "in_addr list \<Rightarrow> int \<Rightarrow> nat \<Rightarrow> sockaddr_in" where
  "rotation_target addrs port n =
     \<lparr>sin_addr = addrs ! (n mod length addrs), sin_port = htons port\<rparr>"

definition rotation_attempt :: "in_addr list \<Rightarrow> int \<Rightarrow> nat \<Rightarrow> nat \<times> sockaddr_in" where
  "rotation_attempt addrs port n = (0, rotation_target addrs port n)"

text \<open>The sockets that the \<^verbatim>\<open>connect()\<close> calls of a run were given, in order.\<close>

definition sockets_used :: "connection outcome \<Rightarrow> nat list" where
  "sockets_used r = (case r of Returns c \<Rightarrow> map fst (attempts c) | Undefined \<Rightarrow> [])"

subsection \<open>The message and its framing\<close>

text \<open>
  Modelled from the spec: the flag word of \<^verbatim>\<open>libspamc.h\<close> (not among the sources) as a
  record, one field for \<^verbatim>\<open>flags & SPAMC_MODE_MASK\<close> and one for each flag bit the code
  tests (check-only, report-if-spam, report, symbols-only, encrypted transport) or sets
  (safe-fallback).
\<close>

datatype spamc_mode = SPAMC_RAW_MODE | SPAMC_BSMTP_MODE | SPAMC_OTHER_MODE

record spamc_flags =
  mode :: spamc_mode
  check_only :: bool
  report_ifspam :: bool
  report :: bool
  symbols :: bool
  use_ssl :: bool
  safe_fallback :: bool

datatype message_type = MESSAGE_NONE | MESSAGE_ERROR | MESSAGE_RAW | MESSAGE_BSMTP

text \<open>
  Where a pointer of the message points: nowhere (\<^verbatim>\<open>NULL\<close>), into the buffer \<^verbatim>\<open>m->raw\<close>
  that \<^verbatim>\<open>message_read\<close> allocates (at an offset), at the buffer that \<^verbatim>\<open>_message_filter\<close>
  allocates for \<^verbatim>\<open>m->out\<close>, or, in a struct that was never initialised, anywhere.
\<close>

datatype ptr = Null | Raw_at nat | Out_buf | Wild nat

text \<open>
  \<^verbatim>\<open>struct message\<close>. For a pointer field the record holds the bytes it gives access to
  (\<open>None\<close> when there are none: for \<open>raw\<close> the captured bytes, for the views \<open>msg\<close> and
  \<open>out\<close> the bytes of the view) and, in \<open>raw_at\<close>, \<open>msg_at\<close> and \<open>out_at\<close>, where it points;
  \<open>pre\<close> and \<open>post\<close> are the bytes of their views, empty while the length is 0.
\<close>

record message =
  max_len :: int
  timeout :: int
  mtype :: message_type
  raw :: "string option"
  raw_len :: int
  pre :: string
  pre_len :: int
  msg :: "string option"
  msg_len :: int
  post :: string
  post_len :: int
  is_spam :: int
  score :: rat
  threshold :: rat
  out :: "string option"
  out_len :: int
  content_length :: int
  raw_at :: ptr
  msg_at :: ptr
  out_at :: ptr

definition clear_message :: "message \<Rightarrow> message" where
  "clear_message m =
     m\<lparr>mtype := MESSAGE_NONE, raw := None, raw_len := 0, pre := [], pre_len := 0,
       msg := None, msg_len := 0, post := [], post_len := 0, is_spam := EX_TOOBIG,
       score := 0, threshold := 0, out := None, out_len := 0, content_length := -1,
       raw_at := Null, msg_at := Null, out_at := Null\<rparr>"

text \<open>The first \<open>n\<close> bytes behind a pointer, as \<^verbatim>\<open>full_write (fd, p, n)\<close> sends them.\<close>

definition view :: "string option \<Rightarrow> int \<Rightarrow> string" where
  "view p n = (case p of None \<Rightarrow> [] | Some s \<Rightarrow> take (nat n) s)"

definition message_read_raw :: "fd_in \<Rightarrow> message \<Rightarrow> int \<times> message \<times> fd_in" where
  "message_read_raw fd m0 =
     (let m = clear_message m0 in
      case full_read fd (max_len m + 1) (max_len m + 1) of
        (n, bs, fd') \<Rightarrow>
          if n \<le> 0 then (EX_IOERR, m\<lparr>raw := None, raw_len := 0, raw_at := Null\<rparr>, fd')
          else if n > max_len m then
            (EX_TOOBIG,
             m\<lparr>raw := Some bs, raw_len := n, mtype := MESSAGE_ERROR, raw_at := Raw_at 0\<rparr>,
             fd')
          else
            (EX_OK,
             m\<lparr>raw := Some bs, raw_len := n, mtype := MESSAGE_RAW, msg := Some bs,
               msg_len := n, out := Some bs, out_len := n, raw_at := Raw_at 0,
               msg_at := Raw_at 0, out_at := Raw_at 0\<rparr>,
             fd'))"

text \<open>
  The search for the DATA line: \<^verbatim>\<open>for(i=0; i<m->raw_len-6; i++)\<close>. The result is
  \<^verbatim>\<open>m->pre_len\<close>, or \<open>None\<close> when the loop ends with \<^verbatim>\<open>m->msg==NULL\<close>.
\<close>

function find_data :: "string \<Rightarrow> nat \<Rightarrow> nat option" where
  "find_data r i =
     (if int i < int (length r) - 6 then
        (if r ! i = LF \<and>
            (r ! (i + 1) = CHR ''D'' \<or> r ! (i + 1) = CHR ''d'') \<and>
            (r ! (i + 2) = CHR ''A'' \<or> r ! (i + 2) = CHR ''a'') \<and>
            (r ! (i + 3) = CHR ''T'' \<or> r ! (i + 3) = CHR ''t'') \<and>
            (r ! (i + 4) = CHR ''A'' \<or> r ! (i + 4) = CHR ''a'') \<and>
            ((r ! (i + 5) = CR \<and> r ! (i + 6) = LF) \<or> r ! (i + 5) = LF)
         then Some (if r ! (i + 5) = CR then i + 7 else i + 6)
         else find_data r (Suc i))
      else None)"
  by pat_completeness auto
termination
  by (relation "measure (\<lambda>(r, i). length r - i)") auto

declare find_data.simps [simp del]

text \<open>
  The search for the end-of-DATA line, which unstuffs in place. \<open>scan_buf\<close> is
  \<^verbatim>\<open>m->msg[0..msg_len)\<close>, \<open>scan_i\<close> and \<open>scan_j\<close> are \<^verbatim>\<open>i\<close> and \<^verbatim>\<open>j\<close>;
  \<open>scan_reads\<close> records the indices of \<^verbatim>\<open>m->msg\<close> that were read, in order. The C code
  reads \<^verbatim>\<open>m->msg[i+1]\<close> and \<^verbatim>\<open>m->msg[i+2]\<close> without comparing them with \<^verbatim>\<open>msg_len\<close>;
  \<open>beyond k\<close> is the byte that lies \<open>k\<close> places after the captured bytes.
\<close>

record scan =
  scan_buf :: string
  scan_i :: nat
  scan_j :: nat
  scan_prev :: char
  scan_reads :: "nat list"

datatype scan_result = Continue scan | Lone_dot scan

definition peek :: "(nat \<Rightarrow> char) \<Rightarrow> string \<Rightarrow> nat \<Rightarrow> char" where
  "peek beyond b k = (if k < length b then b ! k else beyond (k - length b))"

definition unstuff_step :: "(nat \<Rightarrow> char) \<Rightarrow> scan \<Rightarrow> scan_result" where
  "unstuff_step beyond s =
     (let i = scan_i s; j = scan_j s; b = scan_buf s;
          c = peek beyond b i; c1 = peek beyond b (i + 1); c2 = peek beyond b (i + 2);
          dot = (scan_prev s = LF \<and> c = CHR ''.'');
          rs = scan_reads s @ [i] @
               (if dot then [i + 1] @ (if c1 = CR then [i + 2] else []) else [])
      in
        if dot \<and> ((c1 = CR \<and> c2 = LF) \<or> c1 = LF) then
          Lone_dot (s\<lparr>scan_reads := rs\<rparr>)
        else if dot \<and> c1 = CHR ''.'' then
          Continue (s\<lparr>scan_prev := CHR ''.'', scan_i := Suc i, scan_reads := rs\<rparr>)
        else
          Continue (s\<lparr>scan_prev := c, scan_buf := b[j := c], scan_j := Suc j,
                      scan_i := Suc i, scan_reads := rs\<rparr>))"

lemma unstuff_step_Continue:
  "unstuff_step beyond s = Continue s' \<Longrightarrow>
   scan_i s' = Suc (scan_i s) \<and> length (scan_buf s') = length (scan_buf s)"
  by (auto simp: unstuff_step_def Let_def split: if_splits)

function unstuff_loop :: "(nat \<Rightarrow> char) \<Rightarrow> scan \<Rightarrow> scan \<times> bool" where
  "unstuff_loop beyond s =
     (if scan_i s < length (scan_buf s) then
        (case unstuff_step beyond s of
           Lone_dot s' \<Rightarrow> (s', True)
         | Continue s' \<Rightarrow> unstuff_loop beyond s')
      else (s, False))"
  by pat_completeness auto
termination
  by (relation "measure (\<lambda>(beyond, s). length (scan_buf s) - scan_i s)")
     (auto dest: unstuff_step_Continue [OF sym] unstuff_step_Continue)

declare unstuff_loop.simps [simp del]

definition scan_start :: "string \<Rightarrow> scan" where
  "scan_start b = \<lparr>scan_buf = b, scan_i = 0, scan_j = 0, scan_prev = LF, scan_reads = []\<rparr>"

definition message_read_bsmtp ::
  "(nat \<Rightarrow> char) \<Rightarrow> fd_in \<Rightarrow> message \<Rightarrow> int \<times> message \<times> fd_in" where
  "message_read_bsmtp beyond fd m0 =
     (let m = clear_message m0 in
      case full_read fd (max_len m + 1) (max_len m + 1) of
        (n, bs, fd') \<Rightarrow>
          if n \<le> 0 then (EX_IOERR, m\<lparr>raw := None, raw_len := 0, raw_at := Null\<rparr>, fd')
          else if n > max_len m then
            (EX_TOOBIG,
             m\<lparr>raw := Some bs, raw_len := n, mtype := MESSAGE_ERROR, raw_at := Raw_at 0\<rparr>,
             fd')
          else
            (case find_data bs 0 of
               None \<Rightarrow>
                 (EX_DATAERR,
                  m\<lparr>raw := Some bs, raw_len := n, mtype := MESSAGE_ERROR,
                    raw_at := Raw_at 0\<rparr>,
                  fd')
             | Some p \<Rightarrow>
                 (case unstuff_loop beyond (scan_start (drop p bs)) of
                    (s, lone_dot) \<Rightarrow>
                      (let b = scan_buf s;
                           body = (if lone_dot then take (scan_j s) b else b)
                       in
                         (EX_OK,
                          m\<lparr>raw := Some (take p bs @ b), raw_len := n,
                            mtype := MESSAGE_BSMTP,
                            pre := take p bs, pre_len := int p,
                            msg := Some body, msg_len := int (length body),
                            post := (if lone_dot then drop (scan_i s) b else []),
                            post_len := (if lone_dot then int (length b) - int (scan_i s)
                                         else 0),
                            out := Some body, out_len := int (length body),
                            raw_at := Raw_at 0, msg_at := Raw_at p, out_at := Raw_at p\<rparr>,
                          fd')))))"

definition message_read ::
  "(nat \<Rightarrow> char) \<Rightarrow> fd_in \<Rightarrow> spamc_flags \<Rightarrow> message \<Rightarrow> int \<times> message \<times> fd_in" where
  "message_read beyond fd flags m =
     (case mode flags of
        SPAMC_RAW_MODE \<Rightarrow> message_read_raw fd m
      | SPAMC_BSMTP_MODE \<Rightarrow> message_read_bsmtp beyond fd m
      | SPAMC_OTHER_MODE \<Rightarrow> (EX_USAGE, m, fd))"

text \<open>
  \<^verbatim>\<open>message_write\<close>, batched-SMTP case: the inner loop fills \<^verbatim>\<open>buffer[1024]\<close> up to
  \<^verbatim>\<open>jlimit = 1020\<close> bytes (\<open>acc\<close> is \<^verbatim>\<open>buffer[0..j)\<close>), doubling a dot that follows a line
  feed; the outer loop writes each buffer.
\<close>

function stuff_chunk :: "string \<Rightarrow> nat \<Rightarrow> string \<Rightarrow> nat \<times> string" where
  "stuff_chunk ob i acc =
     (if i < length ob \<and> length acc < 1020 then
        (if i + 1 < length ob \<and> ob ! i = LF \<and> ob ! (i + 1) = CHR ''.'' then
           (if length acc > 1016 then (i, acc)
            else stuff_chunk ob (i + 2) (acc @ [ob ! i, ob ! (i + 1), CHR ''.'']))
         else stuff_chunk ob (i + 1) (acc @ [ob ! i]))
      else (i, acc))"
  by pat_completeness auto
termination
  by (relation "measure (\<lambda>(ob, i, acc). length ob - i)") auto

declare stuff_chunk.simps [simp del]

lemma stuff_chunk_mono: "stuff_chunk ob i acc = (i', b) \<Longrightarrow> i \<le> i'"
proof (induction ob i acc arbitrary: i' b rule: stuff_chunk.induct)
  case (1 ob i acc)
  show ?case
    using "1.prems" "1.IH" stuff_chunk.simps [of ob i acc]
    by (auto split: if_splits)
qed

lemma stuff_chunk_progress:
  assumes "stuff_chunk ob i [] = (i', b)" and "i < length ob"
  shows "i < i'"
  using assms stuff_chunk.simps [of ob i "[]"]
  by (auto split: if_splits dest: stuff_chunk_mono)

function stuff_loop :: "string \<Rightarrow> nat \<Rightarrow> fd_out \<Rightarrow> int \<Rightarrow> int \<times> fd_out" where
  "stuff_loop ob i fd tot =
     (if i < length ob then
        (case stuff_chunk ob i [] of
           (i', b) \<Rightarrow>
             (case full_write fd b of
                (n, fd') \<Rightarrow> stuff_loop ob i' fd' (tot + n)))
      else (tot, fd))"
  by pat_completeness auto
termination
  by (relation "measure (\<lambda>(ob, i, fd, tot). length ob - i)")
     (auto dest: stuff_chunk_progress [OF sym] stuff_chunk_progress)

declare stuff_loop.simps [simp del]

definition message_write :: "fd_out \<Rightarrow> message \<Rightarrow> int \<times> fd_out" where
  "message_write fd m =
     (if is_spam m = EX_ISSPAM \<or> is_spam m = EX_NOTSPAM then
        full_write fd (view (out m) (out_len m))
      else if is_spam m \<noteq> EX_OUTPUTMESSAGE \<and> is_spam m \<noteq> EX_TOOBIG then (-1, fd)
      else
        (case mtype m of
           MESSAGE_NONE \<Rightarrow> (-1, fd)
         | MESSAGE_ERROR \<Rightarrow> full_write fd (view (raw m) (raw_len m))
         | MESSAGE_RAW \<Rightarrow> full_write fd (view (out m) (out_len m))
         | MESSAGE_BSMTP \<Rightarrow>
             (case full_write fd (take (nat (pre_len m)) (pre m)) of
                (tot, fd1) \<Rightarrow>
                  (case stuff_loop (view (out m) (out_len m)) 0 fd1 tot of
                     (tot', fd2) \<Rightarrow>
                       (case full_write fd2 (take (nat (post_len m)) (post m)) of
                          (n, fd3) \<Rightarrow> (tot' + n, fd3))))))"

text \<open>
  \<^verbatim>\<open>message_dump\<close>: write the message if it has a type, then copy the rest of the input
  to the output.
\<close>

lemma full_read_loop_size_le:
  "full_read_loop fd minb len acc = (k, bs, fd') \<Longrightarrow> fd_size fd' \<le> fd_size fd"
proof (induction fd minb len acc arbitrary: k bs fd' rule: full_read_loop.induct)
  case (1 fd minb len acc)
  obtain t bs1 fd1 where r: "timeout_read fd (nat (len - int (length acc))) = (t, bs1, fd1)"
    by (cases "timeout_read fd (nat (len - int (length acc)))")
  show ?case
    using "1.prems" "1.IH" [OF _ r [symmetric] refl] full_read_loop.simps [of fd minb len acc]
      timeout_read_size_le [OF r] r
    by (auto split: if_splits)
qed

lemma full_read_loop_size:
  "full_read_loop fd minb len acc = (k, bs, fd') \<Longrightarrow> int (length acc) < k \<Longrightarrow>
   fd_size fd' < fd_size fd"
proof -
  assume a: "full_read_loop fd minb len acc = (k, bs, fd')" and b: "int (length acc) < k"
  obtain t bs1 fd1 where r: "timeout_read fd (nat (len - int (length acc))) = (t, bs1, fd1)"
    by (cases "timeout_read fd (nat (len - int (length acc)))")
  from a b r full_read_loop.simps [of fd minb len acc]
  have "0 < t" and "full_read_loop fd1 minb len (acc @ bs1) = (k, bs, fd')"
    by (auto split: if_splits)
  then show ?thesis
    using timeout_read_size [OF r] full_read_loop_size_le [of fd1 minb len "acc @ bs1" k bs fd']
    by simp
qed

function dump_loop :: "fd_in \<Rightarrow> fd_out \<Rightarrow> fd_in \<times> fd_out" where
  "dump_loop i_fd o_fd =
     (case full_read i_fd 8192 8192 of
        (bytes, bs, i_fd') \<Rightarrow>
          if bytes > 0 then dump_loop i_fd' (snd (full_write o_fd bs)) else (i_fd', o_fd))"
  by pat_completeness auto
termination
  by (relation "measure (\<lambda>(i_fd, o_fd). fd_size i_fd)")
     (auto simp: full_read_def dest: full_read_loop_size [OF sym])

declare dump_loop.simps [simp del]

definition message_dump :: "fd_in \<Rightarrow> fd_out \<Rightarrow> message \<Rightarrow> fd_in \<times> fd_out" where
  "message_dump in_fd out_fd m =
     dump_loop in_fd
       (if mtype m \<noteq> MESSAGE_NONE then snd (message_write out_fd m) else out_fd)"

text \<open>
  The states the unstuffing loop goes through from \<open>s0\<close>: \<open>s0\<close> itself, and the state after
  each iteration that runs (the loop condition holds), whether it continues or breaks.
\<close>

inductive scan_reach :: "(nat \<Rightarrow> char) \<Rightarrow> scan \<Rightarrow> scan \<Rightarrow> bool" for beyond s0 where
  reach_start: "scan_reach beyond s0 s0"
| reach_continue:
    "scan_reach beyond s0 s \<Longrightarrow> scan_i s < length (scan_buf s) \<Longrightarrow>
     unstuff_step beyond s = Continue s' \<Longrightarrow> scan_reach beyond s0 s'"
| reach_break:
    "scan_reach beyond s0 s \<Longrightarrow> scan_i s < length (scan_buf s) \<Longrightarrow>
     unstuff_step beyond s = Lone_dot s' \<Longrightarrow> scan_reach beyond s0 s'"

text \<open>
  The indices of \<^verbatim>\<open>m->msg\<close> that \<^verbatim>\<open>message_read_bsmtp\<close> reads while it looks for the
  end-of-DATA line in the capture \<open>bs\<close>, and the length of the data section there.
\<close>

definition bsmtp_reads :: "(nat \<Rightarrow> char) \<Rightarrow> string \<Rightarrow> nat list" where
  "bsmtp_reads beyond bs =
     (case find_data bs 0 of
        None \<Rightarrow> []
      | Some p \<Rightarrow> scan_reads (fst (unstuff_loop beyond (scan_start (drop p bs)))))"

definition bsmtp_data_len :: "string \<Rightarrow> nat" where
  "bsmtp_data_len bs = (case find_data bs 0 of None \<Rightarrow> 0 | Some p \<Rightarrow> length (drop p bs))"

text \<open>
  A message as \<^verbatim>\<open>clear_message\<close> leaves it, with \<^verbatim>\<open>max_len\<close> set: the message the
  examples below hand to \<^verbatim>\<open>message_read\<close> and to the codec. (The \<^verbatim>\<open>struct message\<close> of
  \<^verbatim>\<open>message_process\<close> itself is not cleared before use: see \<open>auto_message\<close>.)
\<close>

definition message_init :: "int \<Rightarrow> message" where
  "message_init max_size =
     \<lparr>max_len = max_size, timeout = 0, mtype = MESSAGE_NONE, raw = None, raw_len = 0,
      pre = [], pre_len = 0, msg = None, msg_len = 0, post = [], post_len = 0,
      is_spam = EX_TOOBIG, score = 0, threshold = 0, out = None, out_len = 0,
      content_length = -1, raw_at = Null, msg_at = Null, out_at = Null\<rparr>"

subsection \<open>The C library functions the codec calls\<close>

text \<open>
  \<^verbatim>\<open>isspace\<close>, \<^verbatim>\<open>isdigit\<close> and \<^verbatim>\<open>tolower\<close> in the C locale, \<^verbatim>\<open>strcasecmp\<close>, \<^verbatim>\<open>strtol\<close> in
  base 10 (with a 64-bit \<^verbatim>\<open>long\<close>) and the part of \<^verbatim>\<open>sscanf\<close> the code uses: literal
  characters, white space, \<^verbatim>\<open>%s\<close> with an optional width, \<^verbatim>\<open>%d\<close>, and the assignment
  suppression \<^verbatim>\<open>*\<close>. They follow the C standard; none of them is in the sources.
\<close>

definition isspace :: "char \<Rightarrow> bool" where
  "isspace c = (c = CHR '' '' \<or> c = CHR 0x09 \<or> c = LF \<or> c = CHR 0x0B \<or> c = CHR 0x0C \<or> c = CR)"

definition isdigit :: "char \<Rightarrow> bool" where
  "isdigit c = (48 \<le> (of_char c :: nat) \<and> (of_char c :: nat) \<le> 57)"

definition digit_val :: "char \<Rightarrow> int" where
  "digit_val c = int (of_char c) - 48"

definition digits_val :: "string \<Rightarrow> int" where
  "digits_val ds = foldl (\<lambda>a c. 10 * a + digit_val c) 0 ds"

definition tolower :: "char \<Rightarrow> char" where
  "tolower c = (if 65 \<le> (of_char c :: nat) \<and> (of_char c :: nat) \<le> 90
                then char_of ((of_char c :: nat) + 32) else c)"

fun strcasecmp :: "string \<Rightarrow> string \<Rightarrow> int" where
  "strcasecmp [] [] = 0"
| "strcasecmp (x # xs) [] = int (of_char (tolower x))"
| "strcasecmp [] (y # ys) = - int (of_char (tolower y))"
| "strcasecmp (x # xs) (y # ys) =
     (if tolower x = tolower y then strcasecmp xs ys
      else int (of_char (tolower x)) - int (of_char (tolower y)))"

text \<open>An optional sign in front of a number: whether it is a minus, and the rest.\<close>

definition take_sign :: "string \<Rightarrow> bool \<times> string" where
  "take_sign t =
     (case t of
        [] \<Rightarrow> (False, t)
      | c # r \<Rightarrow> if c = CHR ''-'' then (True, r) else if c = CHR ''+'' then (False, r)
                 else (False, t))"

definition LONG_MAX :: int where "LONG_MAX = 9223372036854775807"

text \<open>A value reduced to the 32 bits of a C \<^verbatim>\<open>int\<close>, two's complement.\<close>

definition wrap_int32 :: "int \<Rightarrow> int" where
  "wrap_int32 x = (x + 2147483648) mod 4294967296 - 2147483648"

text \<open>
  \<^verbatim>\<open>strtol (s, &end, 10)\<close>: the value (clamped to the range of \<^verbatim>\<open>long\<close>) and the text
  \<^verbatim>\<open>end\<close> points to; with no digits the value is 0 and \<^verbatim>\<open>end\<close> is \<open>s\<close>.
\<close>

definition strtol :: "string \<Rightarrow> int \<times> string" where
  "strtol s =
     (case take_sign (dropWhile isspace s) of
        (neg, u) \<Rightarrow>
          (let ds = takeWhile isdigit u; v = (if neg then - digits_val ds else digits_val ds)
           in if ds = [] then (0, s)
              else (max (- LONG_MAX - 1) (min LONG_MAX v), dropWhile isdigit u)))"

datatype directive = Lit char | Space | Conv_s bool "nat option" | Conv_d bool

datatype scanned = Str string | Num int

datatype fstate = Plain | Spec bool "nat option"

text \<open>The directives of a format string; an unsupported conversion ends the format.\<close>

fun parse_format :: "fstate \<Rightarrow> string \<Rightarrow> directive list" where
  "parse_format st [] = []"
| "parse_format Plain (c # cs) =
     (if c = CHR ''%'' then parse_format (Spec False None) cs
      else if isspace c then Space # parse_format Plain cs
      else Lit c # parse_format Plain cs)"
| "parse_format (Spec star w) (c # cs) =
     (if c = CHR ''*'' then parse_format (Spec True w) cs
      else if isdigit c then
        parse_format
          (Spec star (Some (10 * (case w of None \<Rightarrow> 0 | Some n \<Rightarrow> n) + nat (digit_val c)))) cs
      else if c = CHR ''s'' then Conv_s star w # parse_format Plain cs
      else if c = CHR ''d'' \<and> w = None then Conv_d star # parse_format Plain cs
      else [])"

text \<open>
  The values a scan assigns, in order; it stops at the first directive that does not
  match. \<^verbatim>\<open>sscanf\<close> returns their number (or \<^verbatim>\<open>EOF\<close>, which is negative, when the input
  ends before the first conversion: the code only compares the result with 1, 2 and 3).
  A \<^verbatim>\<open>%d\<close> value is the \<^verbatim>\<open>long\<close> that \<^verbatim>\<open>strtol\<close> would give for the digits, stored in
  the 32 bits of the \<^verbatim>\<open>int\<close>: 2147483648 is stored as a negative number.
\<close>

fun scan_directives :: "directive list \<Rightarrow> string \<Rightarrow> scanned list" where
  "scan_directives [] s = []"
| "scan_directives (Space # ds) s = scan_directives ds (dropWhile isspace s)"
| "scan_directives (Lit c # ds) s =
     (case s of [] \<Rightarrow> [] | x # xs \<Rightarrow> if x = c then scan_directives ds xs else [])"
| "scan_directives (Conv_s star w # ds) s =
     (let t = dropWhile isspace s;
          word = takeWhile (\<lambda>c. \<not> isspace c) t;
          tok = (case w of None \<Rightarrow> word | Some n \<Rightarrow> take n word)
      in if tok = [] then []
         else (if star then [] else [Str tok]) @ scan_directives ds (drop (length tok) t))"
| "scan_directives (Conv_d star # ds) s =
     (case take_sign (dropWhile isspace s) of
        (neg, u) \<Rightarrow>
          (let digs = takeWhile isdigit u
           in if digs = [] then []
              else (if star then []
                    else [Num (wrap_int32
                                 (max (- LONG_MAX - 1)
                                    (min LONG_MAX
                                       (if neg then - digits_val digs
                                        else digits_val digs))))]) @
                   scan_directives ds (dropWhile isdigit u)))"

definition sscanf :: "string \<Rightarrow> string \<Rightarrow> scanned list" where
  "sscanf buf format = scan_directives (parse_format Plain format) buf"

text \<open>Decimal output, \<^verbatim>\<open>%d\<close> of \<^verbatim>\<open>printf\<close>.\<close>

fun show_nat :: "nat \<Rightarrow> string" where
  "show_nat n =
     (if n < 10 then [''0123456789'' ! n]
      else show_nat (n div 10) @ [''0123456789'' ! (n mod 10)])"

declare show_nat.simps [simp del]

definition show_int :: "int \<Rightarrow> string" where
  "show_int i = (if i < 0 then CHR ''-'' # show_nat (nat (- i)) else show_nat (nat i))"

text \<open>
  The value a C \<^verbatim>\<open>float\<close> holds for \<open>x\<close> (IEEE 754 binary32, round to nearest, ties to
  even): a multiple of \<open>2 ^ (e - 23)\<close>, where \<open>2 ^ e\<close> is the largest power of two that is
  at most \<open>\<bar>x\<bar>\<close>, and \<open>e\<close> is -126 for smaller values (the subnormal numbers).
  \<open>exponent_from\<close> finds \<open>e\<close> from 0, halving or doubling the value at each step.
  Magnitudes from \<open>2 ^ 128\<close> on, which a \<^verbatim>\<open>float\<close> does not hold, are not reached: the
  numbers parsed here have at most 19 characters.
\<close>

definition pow2 :: "int \<Rightarrow> rat" where
  "pow2 e = (if 0 \<le> e then 2 ^ nat e else 1 / 2 ^ nat (- e))"

definition round_half_even :: "rat \<Rightarrow> int" where
  "round_half_even x =
     (let f = \<lfloor>x\<rfloor>; d = x - of_int f
      in if d < 1 / 2 then f else if 1 / 2 < d then f + 1 else if even f then f else f + 1)"

fun exponent_from :: "nat \<Rightarrow> rat \<Rightarrow> int \<Rightarrow> int" where
  "exponent_from 0 a e = e"
| "exponent_from (Suc n) a e =
     (if 2 \<le> a then exponent_from n (a / 2) (e + 1)
      else if a < 1 \<and> - 126 < e then exponent_from n (a * 2) (e - 1)
      else e)"

definition float_exponent :: "rat \<Rightarrow> int" where
  "float_exponent a = exponent_from 253 a 0"

definition float32 :: "rat \<Rightarrow> rat" where
  "float32 x =
     (let q = pow2 (float_exponent \<bar>x\<bar> - 23) in of_int (round_half_even (x / q)) * q)"

text \<open>
  \<^verbatim>\<open>%.1f\<close> of \<^verbatim>\<open>printf\<close>: one decimal of the exact value of its argument, rounded to
  nearest, ties to even.
\<close>

definition show_f1 :: "rat \<Rightarrow> string" where
  "show_f1 x =
     (let t = nat (round_half_even (\<bar>x\<bar> * 10))
      in (if x < 0 then ''-'' else []) @ show_nat (t div 10) @ ''.'' @ show_nat (t mod 10))"

subsection \<open>The protocol codec\<close>

text \<open>
  \<^verbatim>\<open>_spamc_read_full_line\<close>: one byte per \<^verbatim>\<open>read\<close> into \<^verbatim>\<open>buf[len]\<close>. The test
  \<^verbatim>\<open>buf[len]=='\n'\<close> comes before the test of \<^verbatim>\<open>bytesread\<close>, so at end of file or after an
  error it looks at the byte that was already in the buffer. The buffer is a function
  from positions to bytes; the result is the return value, the buffer, \<^verbatim>\<open>*lenp\<close> (the
  old value \<open>lenp\<close> on failure) and the socket.
\<close>

function read_line_loop ::
  "(nat \<Rightarrow> char) \<Rightarrow> fd_in \<Rightarrow> nat \<Rightarrow> nat \<Rightarrow> nat \<Rightarrow> int \<times> (nat \<Rightarrow> char) \<times> nat \<times> fd_in" where
  "read_line_loop buf sock bufsiz lenp len =
     (if len + 1 < bufsiz then
        (case timeout_read sock 1 of
           (bytesread, bs, sock') \<Rightarrow>
             (let buf1 = (case bs of [] \<Rightarrow> buf | c # _ \<Rightarrow> buf(len := c))
              in if buf1 len = LF then
                   (let buf2 = buf1(len := NUL)
                    in if 0 < len \<and> buf2 (len - 1) = CR
                       then (EX_OK, buf2(len - 1 := NUL), len - 1, sock')
                       else (EX_OK, buf2, len, sock'))
                 else if bytesread \<le> 0 then (EX_IOERR, buf1, lenp, sock')
                 else read_line_loop buf1 sock' bufsiz lenp (len + 1)))
      else (EX_TOOBIG, buf, lenp, sock))"
  by pat_completeness auto
termination
  by (relation "measure (\<lambda>(buf, sock, bufsiz, lenp, len). bufsiz - len)") auto

declare read_line_loop.simps [simp del]

definition spamc_read_full_line ::
  "(nat \<Rightarrow> char) \<Rightarrow> fd_in \<Rightarrow> nat \<Rightarrow> nat \<Rightarrow> int \<times> (nat \<Rightarrow> char) \<times> nat \<times> fd_in" where
  "spamc_read_full_line buf sock bufsiz lenp = read_line_loop buf sock bufsiz lenp 0"

text \<open>The C string that starts at \<^verbatim>\<open>buf\<close>, given a position \<open>n\<close> that holds a NUL.\<close>

fun c_string_from :: "(nat \<Rightarrow> char) \<Rightarrow> nat \<Rightarrow> nat \<Rightarrow> string" where
  "c_string_from buf k 0 = []"
| "c_string_from buf k (Suc n) =
     (if buf k = NUL then [] else buf k # c_string_from buf (Suc k) n)"

definition c_string :: "(nat \<Rightarrow> char) \<Rightarrow> nat \<Rightarrow> string" where
  "c_string buf n = c_string_from buf 0 n"

text \<open>
  \<^verbatim>\<open>_locale_safe_string_to_float (buf, siz)\<close> on the C string \<open>buf\<close>. \<^verbatim>\<open>divider\<close> is a C
  \<^verbatim>\<open>int\<close>: each \<^verbatim>\<open>divider *= 10\<close> is reduced to 32 bits by \<open>wrap_int32\<close> (it is not 0
  for fewer than 32 characters after the dot, and \<open>siz\<close> is 20 in every call).
\<close>

definition locale_safe_string_to_float :: "string \<Rightarrow> nat \<Rightarrow> rat" where
  "locale_safe_string_to_float buf0 siz =
     (let buf = take (siz - 1) buf0;
          is_neg = (case buf of [] \<Rightarrow> False | c # _ \<Rightarrow> c = CHR ''-'')
      in case strtol buf of
           (n, dot) \<Rightarrow>
             (let ret = (of_int n :: rat)
              in case dot of
                   [] \<Rightarrow> ret
                 | d # cp \<Rightarrow>
                     if d \<noteq> CHR ''.'' then ret
                     else
                       (let postdot = (of_int (fst (strtol cp)) :: rat)
                        in if postdot = 0 then ret
                           else
                             (let divider = foldl (\<lambda>dv c. wrap_int32 (dv * 10)) 1 cp
                              in if is_neg then ret - postdot / of_int divider
                                 else ret + postdot / of_int divider))))"

text \<open>
  The value \<^verbatim>\<open>sscanf\<close> stored for a \<^verbatim>\<open>%s\<close> or a \<^verbatim>\<open>%d\<close> conversion (the format fixes
  which of the two a position holds).
\<close>

fun str_of :: "scanned \<Rightarrow> string" where
  "str_of (Str s) = s"
| "str_of (Num n) = []"

fun num_of :: "scanned \<Rightarrow> int" where
  "num_of (Num n) = n"
| "num_of (Str s) = 0"

text \<open>
  \<^verbatim>\<open>_handle_spamd_header\<close>. The check-only summary prints the two \<^verbatim>\<open>float\<close> fields: what
  \<^verbatim>\<open>%.1f\<close> is given is the parsed number as a \<^verbatim>\<open>float\<close> holds it.
\<close>

definition handle_spamd_header :: "message \<Rightarrow> spamc_flags \<Rightarrow> string \<Rightarrow> int \<times> message" where
  "handle_spamd_header m flags buf =
     (let verdict = sscanf buf ''Spam: %5s ; %20s / %20s''
      in if length verdict = 3 then
           (let is_spam_str = str_of (verdict ! 0);
                s_str = str_of (verdict ! 1);
                t_str = str_of (verdict ! 2);
                m1 = m\<lparr>score := locale_safe_string_to_float s_str 20,
                       threshold := locale_safe_string_to_float t_str 20,
                       is_spam := (if strcasecmp ''true'' is_spam_str = 0 then EX_ISSPAM
                                   else EX_NOTSPAM)\<rparr>;
                line = show_f1 (float32 (score m1)) @ ''/'' @ show_f1 (float32 (threshold m1)) @
                       [LF]
            in (EX_OK,
                if check_only flags then
                  m1\<lparr>out := Some (take (nat (max_len m1 + EXPANSION_ALLOWANCE) - 1) line),
                     out_len := int (length line)\<rparr>
                else m1))
         else
           (let clen = sscanf buf ''Content-length: %d''
            in if length clen = 1 then
                 (if num_of (clen ! 0) < 0 then EX_PROTOCOL else EX_OK,
                  m\<lparr>content_length := num_of (clen ! 0)\<rparr>)
               else (EX_PROTOCOL, m)))"

text \<open>
  The header loop of \<^verbatim>\<open>_message_filter\<close>: \<^verbatim>\<open>while (1)\<close> reads a line, stops at the
  empty line, and gives up when \<^verbatim>\<open>_handle_spamd_header\<close> returns a negative value.
\<close>

lemma read_line_loop_ok:
  "read_line_loop buf sock bufsiz lenp len = (EX_OK, buf', len', sock') \<Longrightarrow>
   buf' len' = NUL \<and> fd_size sock' \<le> fd_size sock \<and>
   (len < len' \<longrightarrow> fd_size sock' < fd_size sock)"
proof (induction buf sock bufsiz lenp len rule: read_line_loop.induct)
  case (1 buf sock bufsiz lenp len)
  obtain n bs sock1 where r: "timeout_read sock 1 = (n, bs, sock1)"
    by (cases "timeout_read sock 1")
  let ?buf1 = "case bs of [] \<Rightarrow> buf | c # _ \<Rightarrow> buf(len := c)"
  show ?case
  proof (cases "len + 1 < bufsiz \<and> ?buf1 len \<noteq> LF \<and> 0 < n")
    case True
    then have "read_line_loop ?buf1 sock1 bufsiz lenp (len + 1) = (EX_OK, buf', len', sock')"
      using "1.prems" r read_line_loop.simps [of buf sock bufsiz lenp len]
      by (simp add: Let_def)
    from "1.IH" [OF _ r [symmetric] refl refl _ _ this] True
    have "buf' len' = NUL \<and> fd_size sock' \<le> fd_size sock1" by simp
    moreover have "fd_size sock1 < fd_size sock"
      using timeout_read_size [OF r] True by simp
    ultimately show ?thesis by simp
  next
    case False
    then show ?thesis
      using "1.prems" r read_line_loop.simps [of buf sock bufsiz lenp len]
        timeout_read_size_le [OF r]
      by (auto simp: Let_def ex_codes split: if_splits)
  qed
qed

lemma read_full_line_progress:
  assumes "spamc_read_full_line buf sock bufsiz lenp = (EX_OK, buf', len', sock')"
    and "\<not> (len' = 0 \<and> buf' 0 = NUL)"
  shows "fd_size sock' < fd_size sock"
  using read_line_loop_ok [of buf sock bufsiz lenp 0 buf' len' sock'] assms
  by (cases "len' = 0") (auto simp: spamc_read_full_line_def)

lemma read_full_line_progress_sym:
  "(EX_OK, buf', len', sock') = spamc_read_full_line buf sock bufsiz lenp \<Longrightarrow>
   0 < len' \<or> buf' 0 \<noteq> NUL \<Longrightarrow> fd_size sock' < fd_size sock"
  using read_full_line_progress [of buf sock bufsiz lenp buf' len' sock'] by auto

function header_loop ::
  "spamc_flags \<Rightarrow> message \<Rightarrow> (nat \<Rightarrow> char) \<Rightarrow> nat \<Rightarrow> fd_in \<Rightarrow>
   int \<times> message \<times> (nat \<Rightarrow> char) \<times> fd_in" where
  "header_loop flags m buf len sock =
     (case spamc_read_full_line buf sock 8188 len of
        (failureval, buf', len', sock') \<Rightarrow>
          if failureval \<noteq> EX_OK then (failureval, m, buf', sock')
          else if len' = 0 \<and> buf' 0 = NUL then (EX_OK, m, buf', sock')
          else
            (case handle_spamd_header m flags (c_string buf' len') of
               (r, m') \<Rightarrow>
                 if r < 0 then (EX_PROTOCOL, m', buf', sock')
                 else header_loop flags m' buf' len' sock'))"
  by pat_completeness auto
termination
proof (relation "measure (\<lambda>(flags, m, buf, len, sock). fd_size sock)", goal_cases)
  case 1
  show ?case by simp
next
  case 2
  then show ?case by (auto dest: read_full_line_progress_sym)
qed

declare header_loop.simps [simp del]

text \<open>
  The \<^verbatim>\<open>failure:\<close> label (and the early returns that do the same): the output buffer is
  freed and \<^verbatim>\<open>m->out\<close> points to the message that was read again.
\<close>

definition filter_failure :: "int \<Rightarrow> message \<Rightarrow> int \<times> message" where
  "filter_failure failureval m =
     (failureval, m\<lparr>out := msg m, out_len := msg_len m, out_at := msg_at m\<rparr>)"

text \<open>
  After the headers: a check-only call needs a verdict; any other call reads the body
  into \<^verbatim>\<open>m->out\<close> and compares its length with \<^verbatim>\<open>m->content_length\<close>.
\<close>

definition receive_body :: "spamc_flags \<Rightarrow> message \<Rightarrow> fd_in \<Rightarrow> int \<times> message" where
  "receive_body flags m sock =
     (if check_only flags then
        (if is_spam m = EX_TOOBIG then filter_failure EX_PROTOCOL m else (EX_OK, m))
      else
        (let m1 = m\<lparr>is_spam := EX_OUTPUTMESSAGE\<rparr>
         in if content_length m1 < 0 then filter_failure EX_PROTOCOL m1
            else
              (case full_read sock (max_len m1 + EXPANSION_ALLOWANCE + 1 - out_len m1)
                      (max_len m1 + EXPANSION_ALLOWANCE + 1 - out_len m1) of
                 (len, bs, sock') \<Rightarrow>
                   (let m2 = m1\<lparr>out := Some (view (out m1) (out_len m1) @ bs)\<rparr>
                    in if len + out_len m2 > max_len m2 + EXPANSION_ALLOWANCE then
                         filter_failure EX_TOOBIG m2
                       else
                         (let m3 = m2\<lparr>out_len := out_len m2 + len\<rparr>
                          in if out_len m3 \<noteq> content_length m3 then
                               filter_failure EX_PROTOCOL m3
                             else (EX_OK, m3))))))"

text \<open>
  The state of \<^verbatim>\<open>_message_filter\<close> when the headers have been read: the failure that
  ended the call before that, or the message, and the socket with the body still unread.
\<close>

definition read_headers ::
  "spamc_flags \<Rightarrow> message \<Rightarrow> (nat \<Rightarrow> char) \<Rightarrow> nat \<Rightarrow> fd_in \<Rightarrow>
   (int \<times> message) + (message \<times> fd_in)" where
  "read_headers flags m buf len sock =
     (case spamc_read_full_line buf sock 8188 len of
        (failureval, buf1, len1, sock1) \<Rightarrow>
          if failureval \<noteq> EX_OK then Inl (filter_failure failureval m)
          else
            (let answer = sscanf (c_string buf1 len1) ''SPAMD/%s %d %*s''
             in if length answer \<noteq> 2 then Inl (filter_failure EX_PROTOCOL m)
                else if locale_safe_string_to_float (str_of (answer ! 0)) 20 < 1 then
                  Inl (filter_failure EX_PROTOCOL m)
                else
                  (case header_loop flags
                          (m\<lparr>score := 0, threshold := 0, is_spam := EX_TOOBIG\<rparr>)
                          buf1 len1 sock1 of
                     (failureval, m2, buf2, sock2) \<Rightarrow>
                       if failureval \<noteq> EX_OK then Inl (filter_failure failureval m2)
                       else Inr (m2, sock2))))"

definition request_line :: "spamc_flags \<Rightarrow> string" where
  "request_line flags =
     (if check_only flags then ''CHECK''
      else if report_ifspam flags then ''REPORT_IFSPAM''
      else if report flags then ''REPORT''
      else if symbols flags then ''SYMBOLS''
      else ''PROCESS'') @ '' SPAMC/1.3'' @ [CR, LF]"

text \<open>
  The request header in \<^verbatim>\<open>buf\<close>, or \<open>None\<close> when a piece does not fit \<^verbatim>\<open>bufsiz\<close>
  (\<^verbatim>\<open>sizeof(buf) - 4\<close>) and the call returns \<^verbatim>\<open>EX_OSERR\<close>.
\<close>

definition build_request :: "spamc_flags \<Rightarrow> string option \<Rightarrow> int \<Rightarrow> string option" where
  "build_request flags username mlen =
     (let l1 = request_line flags;
          l2 = l1 @ (case username of None \<Rightarrow> [] | Some u \<Rightarrow> ''User: '' @ u @ [CR, LF]);
          l3 = l2 @ ''Content-length: '' @ show_int mlen @ [CR, LF];
          l4 = l3 @ [CR, LF]
      in if 8188 \<le> length l1 \<or> 8188 \<le> length l2 \<or> 8188 \<le> length l3 \<or> 8188 \<le> length l4
         then None else Some l4)"

text \<open>\<^verbatim>\<open>buf\<close> after the header was printed into it: the header, a NUL, then what was there.\<close>

definition put_string :: "(nat \<Rightarrow> char) \<Rightarrow> string \<Rightarrow> nat \<Rightarrow> char" where
  "put_string stack s k =
     (if k < length s then s ! k else if k = length s then NUL else stack k)"

text \<open>
  \<^verbatim>\<open>_message_filter\<close>, built without \<^verbatim>\<open>SPAMC_SSL\<close> (with the SSL flag the call returns
  \<^verbatim>\<open>EX_SOFTWARE\<close> at once). \<open>stack\<close> is what the local \<^verbatim>\<open>buf[8192]\<close> holds on entry. The
  bytes written to the socket are not kept: the daemon's answer is part of the network.
  \<open>exchange_headers\<close> is the function up to the end of the header loop: the return value
  and message of a call that ended there, or the message and the socket of a call that
  goes on to the body.
\<close>

definition exchange_headers ::
  "network \<Rightarrow> (nat \<Rightarrow> char) \<Rightarrow> sockaddr_in option \<Rightarrow> in_addr list option \<Rightarrow> int \<Rightarrow>
   string option \<Rightarrow> spamc_flags \<Rightarrow> message \<Rightarrow>
   ((int \<times> message) + (message \<times> fd_in)) outcome" where
  "exchange_headers net stack addr hent hent_port username flags m =
     (if use_ssl flags then Returns (Inl (EX_SOFTWARE, m))
      else
        (let m1 = m\<lparr>is_spam := EX_TOOBIG, out := Some [], out_len := 0, out_at := Out_buf\<rparr>
         in case build_request flags username (msg_len m1) of
              None \<Rightarrow> Returns (Inl (filter_failure EX_OSERR m1))
            | Some hdr \<Rightarrow>
                (case try_to_connect net addr hent hent_port of
                   Undefined \<Rightarrow> Undefined
                 | Returns c \<Rightarrow>
                     if status c \<noteq> EX_OK then Returns (Inl (filter_failure (status c) m1))
                     else
                       Returns
                         (read_headers flags m1 (put_string stack hdr) (length hdr)
                            (case sockptr c of None \<Rightarrow> [] | Some a \<Rightarrow> daemon net a)))))"

definition static_message_filter ::
  "network \<Rightarrow> (nat \<Rightarrow> char) \<Rightarrow> sockaddr_in option \<Rightarrow> in_addr list option \<Rightarrow> int \<Rightarrow>
   string option \<Rightarrow> spamc_flags \<Rightarrow> message \<Rightarrow> (int \<times> message) outcome" where
  "static_message_filter net stack addr hent hent_port username flags m =
     (case exchange_headers net stack addr hent hent_port username flags m of
        Undefined \<Rightarrow> Undefined
      | Returns (Inl failed) \<Rightarrow> Returns failed
      | Returns (Inr (m2, sock)) \<Rightarrow> Returns (receive_body flags m2 sock))"

definition message_filter ::
  "network \<Rightarrow> (nat \<Rightarrow> char) \<Rightarrow> sockaddr_in \<Rightarrow> string option \<Rightarrow> spamc_flags \<Rightarrow> message \<Rightarrow>
   (int \<times> message) outcome" where
  "message_filter net stack addr username flags m =
     static_message_filter net stack (Some addr) None 0 username flags m"

definition message_filter_with_failover ::
  "network \<Rightarrow> (nat \<Rightarrow> char) \<Rightarrow> in_addr list \<Rightarrow> int \<Rightarrow> string option \<Rightarrow> spamc_flags \<Rightarrow>
   message \<Rightarrow> (int \<times> message) outcome" where
  "message_filter_with_failover net stack hent port username flags m =
     static_message_filter net stack None (Some hent) port username flags m"

subsection \<open>The message processor\<close>

datatype h_errno = HOST_NOT_FOUND | NO_ADDRESS | NO_RECOVERY | TRY_AGAIN | H_OTHER

text \<open>
  What a call of \<^verbatim>\<open>message_process\<close> finds around it: the resolver (\<^verbatim>\<open>gethostbyname\<close>: an
  error, or the address list of the host), the network, the bytes that lie after the
  input capture in memory, the bytes on the stack where \<^verbatim>\<open>_message_filter\<close> puts its line
  buffer, and what the automatic variable \<^verbatim>\<open>struct message m\<close> holds before the code
  assigns to it (the code never clears it).
\<close>

record world =
  gethostbyname :: "string \<Rightarrow> h_errno + in_addr list"
  netw :: network
  beyond_capture :: "nat \<Rightarrow> char"
  stack_garbage :: "nat \<Rightarrow> char"
  auto_message :: message

definition static_lookup_host ::
  "(string \<Rightarrow> h_errno + in_addr list) \<Rightarrow> string \<Rightarrow> int \<times> in_addr list option" where
  "static_lookup_host resolver hostname =
     (case resolver hostname of
        Inl origherr \<Rightarrow>
          ((case origherr of
              HOST_NOT_FOUND \<Rightarrow> EX_NOHOST | NO_ADDRESS \<Rightarrow> EX_NOHOST | NO_RECOVERY \<Rightarrow> EX_NOHOST
            | TRY_AGAIN \<Rightarrow> EX_TEMPFAIL
            | H_OTHER \<Rightarrow> EX_OSERR),
           None)
      | Inr l \<Rightarrow> (EX_OK, Some l))"

definition lookup_host_for_failover ::
  "(string \<Rightarrow> h_errno + in_addr list) \<Rightarrow> string \<Rightarrow> int \<times> in_addr list option" where
  "lookup_host_for_failover resolver hostname = static_lookup_host resolver hostname"

text \<open>
  \<^verbatim>\<open>message_cleanup\<close>: \<^verbatim>\<open>free(m->out)\<close> unless it is \<^verbatim>\<open>NULL\<close> or equal to \<^verbatim>\<open>m->raw\<close>,
  \<^verbatim>\<open>free(m->raw)\<close> unless it is \<^verbatim>\<open>NULL\<close>, then \<^verbatim>\<open>clear_message\<close>. \<^verbatim>\<open>free\<close> is defined for
  the start of an allocated buffer only: not for a pointer into \<^verbatim>\<open>m->raw\<close> at an offset,
  and not for a pointer that was never set.
\<close>

definition allocated :: "ptr \<Rightarrow> bool" where
  "allocated p = (p = Raw_at 0 \<or> p = Out_buf)"

definition message_cleanup :: "message \<Rightarrow> message outcome" where
  "message_cleanup m =
     (if out_at m \<noteq> Null \<and> out_at m \<noteq> raw_at m \<and> \<not> allocated (out_at m) then Undefined
      else if raw_at m \<noteq> Null \<and> \<not> allocated (raw_at m) then Undefined
      else Returns (clear_message m))"

datatype stage = Resolution | Framing | Filtering

text \<open>
  \<^verbatim>\<open>message_process\<close> up to the call of \<^verbatim>\<open>message_write\<close>: either a stage fails and the
  code jumps to \<^verbatim>\<open>FAIL\<close> (the stage, its return value \<^verbatim>\<open>ret\<close>, the message and the input
  as they are then), or the filtered message is there to be written. Before the lookup
  the code has set \<^verbatim>\<open>m.type\<close> only, before \<^verbatim>\<open>message_read\<close> also \<^verbatim>\<open>m.max_len\<close>.
\<close>

definition process_stages ::
  "world \<Rightarrow> string \<Rightarrow> int \<Rightarrow> string option \<Rightarrow> int \<Rightarrow> fd_in \<Rightarrow> spamc_flags \<Rightarrow>
   ((stage \<times> int \<times> message \<times> fd_in) + (message \<times> fd_in)) outcome" where
  "process_stages w hostname port username max_size in_fd flags =
     (let m0 = (auto_message w)\<lparr>mtype := MESSAGE_NONE\<rparr>
      in case lookup_host_for_failover (gethostbyname w) hostname of
           (ret, hent) \<Rightarrow>
             if ret \<noteq> EX_OK then Returns (Inl (Resolution, ret, m0, in_fd))
             else
               (case message_read (beyond_capture w) in_fd flags (m0\<lparr>max_len := max_size\<rparr>) of
                  (ret, m, in_fd') \<Rightarrow>
                    if ret \<noteq> EX_OK then Returns (Inl (Framing, ret, m, in_fd'))
                    else
                      (case message_filter_with_failover (netw w) (stack_garbage w)
                              (case hent of None \<Rightarrow> [] | Some l \<Rightarrow> l) port username flags m of
                         Undefined \<Rightarrow> Undefined
                       | Returns (ret, m') \<Rightarrow>
                           if ret \<noteq> EX_OK then Returns (Inl (Filtering, ret, m', in_fd'))
                           else Returns (Inr (m', in_fd')))))"

text \<open>
  The code at the label \<^verbatim>\<open>FAIL\<close>: the output, then \<^verbatim>\<open>message_cleanup\<close>, then the return.
\<close>

definition process_fail ::
  "spamc_flags \<Rightarrow> int \<Rightarrow> fd_in \<Rightarrow> fd_out \<Rightarrow> message \<Rightarrow> (int \<times> fd_in \<times> fd_out) outcome" where
  "process_fail flags ret in_fd out_fd m =
     (if check_only flags then
        (case message_cleanup m of
           Undefined \<Rightarrow> Undefined
         | Returns m' \<Rightarrow> Returns (EX_NOTSPAM, in_fd, snd (full_write out_fd (''0/0'' @ [LF]))))
      else
        (case message_dump in_fd out_fd m of
           (in_fd', out_fd') \<Rightarrow>
             (case message_cleanup m of
                Undefined \<Rightarrow> Undefined
              | Returns m' \<Rightarrow> Returns (ret, in_fd', out_fd'))))"

text \<open>
  \<^verbatim>\<open>message_process\<close>. After a successful write the code calls \<^verbatim>\<open>message_cleanup\<close> and
  then returns \<^verbatim>\<open>m.is_spam\<close>, which \<^verbatim>\<open>clear_message\<close> has just set.
\<close>

definition message_process ::
  "world \<Rightarrow> string \<Rightarrow> int \<Rightarrow> string option \<Rightarrow> int \<Rightarrow> fd_in \<Rightarrow> fd_out \<Rightarrow> spamc_flags \<Rightarrow>
   (int \<times> fd_in \<times> fd_out) outcome" where
  "message_process w hostname port username max_size in_fd out_fd flags =
     (case process_stages w hostname port username max_size in_fd flags of
        Undefined \<Rightarrow> Undefined
      | Returns (Inl (failed, ret, m, in_fd')) \<Rightarrow> process_fail flags ret in_fd' out_fd m
      | Returns (Inr (m, in_fd')) \<Rightarrow>
          (case message_write out_fd m of
             (n, out_fd') \<Rightarrow>
               if n < 0 then process_fail flags EX_OK in_fd' out_fd' m
               else
                 (case message_cleanup m of
                    Undefined \<Rightarrow> Undefined
                  | Returns m' \<Rightarrow>
                      if is_spam m \<noteq> EX_TOOBIG then Returns (is_spam m', in_fd', out_fd')
                      else Returns (EX_OK, in_fd', out_fd'))))"

text \<open>The obsolete entry point \<^verbatim>\<open>process_message\<close>, the one place that sets the safe-fallback flag.\<close>

definition process_message ::
  "world \<Rightarrow> string \<Rightarrow> int \<Rightarrow> string option \<Rightarrow> int \<Rightarrow> fd_in \<Rightarrow> fd_out \<Rightarrow> bool \<Rightarrow> bool \<Rightarrow>
   (int \<times> fd_in \<times> fd_out) outcome" where
  "process_message w hostname port username max_size in_fd out_fd my_check_only
     my_safe_fallback =
     message_process w hostname port username max_size in_fd out_fd
       \<lparr>mode = SPAMC_RAW_MODE, check_only = my_check_only, report_ifspam = False,
        report = False, symbols = False, use_ssl = False, safe_fallback = my_safe_fallback\<rparr>"

text \<open>
  Flags and a world for the examples: a host with three addresses, a daemon that answers
  \<open>reply\<close>, and a \<^verbatim>\<open>struct message\<close> whose pointers were never set.
\<close>

definition plain_flags :: spamc_flags where
  "plain_flags =
     \<lparr>mode = SPAMC_RAW_MODE, check_only = False, report_ifspam = False, report = False,
      symbols = False, use_ssl = False, safe_fallback = False\<rparr>"

definition example_world :: "(nat \<Rightarrow> sockaddr_in \<Rightarrow> errno option) \<Rightarrow> fd_in \<Rightarrow> world" where
  "example_world connecting reply =
     \<lparr>gethostbyname = (\<lambda>h. Inr [10, 20, 30]),
      netw = \<lparr>socket_call = None, connect_call = connecting, daemon = (\<lambda>a. reply)\<rparr>,
      beyond_capture = (\<lambda>k. NUL), stack_garbage = (\<lambda>k. NUL),
      auto_message = (message_init 0)\<lparr>raw_at := Wild 1, msg_at := Wild 2, out_at := Wild 3\<rparr>\<rparr>"

section \<open>Properties\<close>

subsection \<open>The connection manager\<close>

lemma copy_h_addr_list_index:
  assumes "addrs \<noteq> []" and "n < 3" and "copy_h_addr_list addrs = (hostnum, inaddrlist)"
  shows "hostnum \<noteq> 0 \<and> inaddrlist ! (n mod hostnum) = addrs ! (n mod length addrs)"
  using assms by (auto simp: copy_h_addr_list_def split: if_splits)

lemma connect_loop_hent:
  assumes "addrs \<noteq> []" and "copy_h_addr_list addrs = (hostnum, inaddrlist)" and "n < 3"
  shows "connect_loop net 0 None inaddrlist hostnum port n origerr tried =
     (case connect_call net n (rotation_target addrs port n) of
        Some e \<Rightarrow> connect_loop net 0 None inaddrlist hostnum port (Suc n) (Some e)
                    (tried @ [rotation_attempt addrs port n])
      | None \<Rightarrow> Returns \<lparr>status = EX_OK, sockptr = Some (rotation_target addrs port n),
                  attempts = tried @ [rotation_attempt addrs port n], closed = False\<rparr>)"
  using copy_h_addr_list_index [OF assms(1) assms(3) assms(2)] assms(3)
  by (subst connect_loop.simps)
     (simp add: MAX_CONNECT_RETRIES_def rotation_target_def rotation_attempt_def
        split: option.split)

lemma connect_loop_end:
  "3 \<le> n \<Longrightarrow> connect_loop net mysock argaddr inaddrlist hostnum port n (Some e) tried =
     Returns \<lparr>status = connect_failure e, sockptr = None, attempts = tried, closed = True\<rparr>"
  by (subst connect_loop.simps) (simp add: MAX_CONNECT_RETRIES_def)

lemma try_to_connect_hent:
  "socket_call net = None \<Longrightarrow> copy_h_addr_list addrs = (hostnum, inaddrlist) \<Longrightarrow>
   try_to_connect net None (Some addrs) port =
     connect_loop net 0 None inaddrlist hostnum port 0 None []"
  by (simp add: try_to_connect_def)

lemma connect_failure_classes:
  "connect_failure e =
     (if e \<in> {ECONNREFUSED, ETIMEDOUT, ENETUNREACH} then EX_UNAVAILABLE
      else if e = EACCES then EX_NOPERM else EX_SOFTWARE)"
  by (cases e) (simp_all add: connect_failure_def)

text \<open>
  Claim C6. Given a non-empty address list, and once \<^verbatim>\<open>socket()\<close> has given the one socket
  of the call, \<^verbatim>\<open>try_to_connect\<close> passes to \<^verbatim>\<open>connect()\<close>, at attempt \<open>n = 0, 1, \<dots>\<close> below
  \<^verbatim>\<open>MAX_CONNECT_RETRIES\<close>, that same socket and the address at position
  \<open>n mod length addrs\<close>, with the port reduced to 16 bits by \<^verbatim>\<open>htons\<close>. If attempt \<open>k\<close> is the
  first to succeed, the call returns \<^verbatim>\<open>EX_OK\<close> at once with the socket connected to that
  address, after exactly the attempts \<open>0..k\<close>. If every attempt fails, all
  \<^verbatim>\<open>MAX_CONNECT_RETRIES\<close> addresses of the rotation were tried, the socket is closed, and
  the error of the last attempt is classified: refused, timed out or unreachable is
  \<^verbatim>\<open>EX_UNAVAILABLE\<close>, no permission is \<^verbatim>\<open>EX_NOPERM\<close>, everything else \<^verbatim>\<open>EX_SOFTWARE\<close>.
\<close>

theorem try_to_connect_rotation:
  assumes "addrs \<noteq> []" and "socket_call net = None"
  shows "(\<forall>k. k < MAX_CONNECT_RETRIES \<and>
             connect_call net k (rotation_target addrs port k) = None \<and>
             (\<forall>n<k. connect_call net n (rotation_target addrs port n) \<noteq> None) \<longrightarrow>
           try_to_connect net None (Some addrs) port =
             Returns \<lparr>status = EX_OK, sockptr = Some (rotation_target addrs port k),
                      attempts = map (rotation_attempt addrs port) [0..<Suc k],
                      closed = False\<rparr>) \<and>
         ((\<forall>n<MAX_CONNECT_RETRIES. connect_call net n (rotation_target addrs port n) \<noteq> None) \<longrightarrow>
           (\<exists>e. connect_call net (MAX_CONNECT_RETRIES - 1)
                   (rotation_target addrs port (MAX_CONNECT_RETRIES - 1)) = Some e \<and>
                try_to_connect net None (Some addrs) port =
                  Returns \<lparr>status =
                             (if e \<in> {ECONNREFUSED, ETIMEDOUT, ENETUNREACH} then EX_UNAVAILABLE
                              else if e = EACCES then EX_NOPERM else EX_SOFTWARE),
                           sockptr = None,
                           attempts = map (rotation_attempt addrs port) [0..<MAX_CONNECT_RETRIES],
                           closed = True\<rparr>))"
proof -
  obtain hostnum inaddrlist where c: "copy_h_addr_list addrs = (hostnum, inaddrlist)"
    by (cases "copy_h_addr_list addrs")
  note step = connect_loop_hent [OF assms(1) c]
  note start = try_to_connect_hent [OF assms(2) c]
  let ?t = "rotation_target addrs port"
  let ?a = "rotation_attempt addrs port"
  have first: "try_to_connect net None (Some addrs) port =
      Returns \<lparr>status = EX_OK, sockptr = Some (?t k), attempts = map ?a [0..<Suc k],
               closed = False\<rparr>"
    if k: "k < 3" and ok: "connect_call net k (?t k) = None"
      and before: "\<forall>n<k. connect_call net n (?t n) \<noteq> None" for k
  proof -
    consider "k = 0" | "k = 1" | "k = 2" using k by linarith
    then show ?thesis
    proof cases
      case 1
      then show ?thesis using ok by (simp add: start step)
    next
      case 2
      then obtain e0 where "connect_call net 0 (?t 0) = Some e0" using before by auto
      then show ?thesis using ok 2 by (simp add: start step)
    next
      case 3
      with before have "connect_call net 0 (?t 0) \<noteq> None" "connect_call net 1 (?t 1) \<noteq> None"
        by simp_all
      then obtain e0 e1 where "connect_call net 0 (?t 0) = Some e0"
        "connect_call net 1 (?t 1) = Some e1"
        by auto
      then show ?thesis using ok 3 by (simp add: start step numeral_2_eq_2)
    qed
  qed
  have none: "\<exists>e. connect_call net 2 (?t 2) = Some e \<and>
      try_to_connect net None (Some addrs) port =
        Returns \<lparr>status = connect_failure e, sockptr = None, attempts = map ?a [0..<3],
                 closed = True\<rparr>"
    if all: "\<forall>n<3. connect_call net n (?t n) \<noteq> None"
  proof -
    from all have "connect_call net 0 (?t 0) \<noteq> None" "connect_call net 1 (?t 1) \<noteq> None"
      "connect_call net 2 (?t 2) \<noteq> None"
      by simp_all
    then obtain e0 e1 e2 where e: "connect_call net 0 (?t 0) = Some e0"
      "connect_call net 1 (?t 1) = Some e1" "connect_call net 2 (?t 2) = Some e2"
      by auto
    have "[0..<3] = [0, 1, 2::nat]" by (simp add: upt_rec)
    then show ?thesis using e
      by (simp add: start step connect_loop_end numeral_2_eq_2 numeral_3_eq_3)
  qed
  show ?thesis
    using first none by (simp add: MAX_CONNECT_RETRIES_def connect_failure_classes)
qed

text \<open>
  Three addresses that all refuse, port 70000: each address is tried once, in order, at
  port 4464, the socket is closed and the result is \<^verbatim>\<open>EX_UNAVAILABLE\<close>.
\<close>

theorem try_to_connect_rotation_witness:
  "[10, 20, 30] \<noteq> ([] :: in_addr list) \<and>
   socket_call \<lparr>socket_call = None, connect_call = (\<lambda>n a. Some ECONNREFUSED),
                 daemon = (\<lambda>a. [])\<rparr> = None \<and>
   try_to_connect
     \<lparr>socket_call = None, connect_call = (\<lambda>n a. Some ECONNREFUSED), daemon = (\<lambda>a. [])\<rparr>
     None (Some [10, 20, 30]) 70000 =
   Returns \<lparr>status = EX_UNAVAILABLE, sockptr = None,
            attempts = [(0, \<lparr>sin_addr = 10, sin_port = 4464\<rparr>),
                        (0, \<lparr>sin_addr = 20, sin_port = 4464\<rparr>),
                        (0, \<lparr>sin_addr = 30, sin_port = 4464\<rparr>)],
            closed = True\<rparr>"
  using try_to_connect_rotation [of "[10, 20, 30]"
    "\<lparr>socket_call = None, connect_call = (\<lambda>n a. Some ECONNREFUSED), daemon = (\<lambda>a. [])\<rparr>" 70000]
  by (simp add: MAX_CONNECT_RETRIES_def rotation_target_def rotation_attempt_def htons_def
      upt_rec)

text \<open>
  The attempts are not made with a socket each: with three addresses that all refuse, the
  three \<^verbatim>\<open>connect()\<close> calls are all given socket 0, the one that \<^verbatim>\<open>socket()\<close> returned before
  the loop.
\<close>

theorem connect_retries_reuse_one_socket:
  "sockets_used
     (try_to_connect
        \<lparr>socket_call = None, connect_call = (\<lambda>n a. Some ECONNREFUSED), daemon = (\<lambda>a. [])\<rparr>
        None (Some [10, 20, 30]) 783) = [0, 0, 0] \<and>
   \<not> distinct (sockets_used
     (try_to_connect
        \<lparr>socket_call = None, connect_call = (\<lambda>n a. Some ECONNREFUSED), daemon = (\<lambda>a. [])\<rparr>
        None (Some [10, 20, 30]) 783))"
proof -
  have "try_to_connect
      \<lparr>socket_call = None, connect_call = (\<lambda>n a. Some ECONNREFUSED), daemon = (\<lambda>a. [])\<rparr>
      None (Some [10, 20, 30]) 783 =
    Returns \<lparr>status = EX_UNAVAILABLE, sockptr = None,
             attempts = [(0, \<lparr>sin_addr = 10, sin_port = 783\<rparr>),
                         (0, \<lparr>sin_addr = 20, sin_port = 783\<rparr>),
                         (0, \<lparr>sin_addr = 30, sin_port = 783\<rparr>)],
             closed = True\<rparr>"
    by (simp add: try_to_connect_def copy_h_addr_list_def connect_loop.simps
        MAX_CONNECT_RETRIES_def connect_failure_def htons_def)
  then show ?thesis by (simp add: sockets_used_def)
qed

subsection \<open>Batched-SMTP framing\<close>

lemmas eval_read = full_read_def full_read_loop.simps

lemmas eval_bsmtp = message_read_bsmtp_def clear_message_def message_init_def Let_def
  find_data.simps unstuff_loop.simps unstuff_step_def scan_start_def peek_def

lemmas eval_write = message_write_def view_def full_write_def stuff_loop.simps
  stuff_chunk.simps

lemma full_read_loop_length:
  "full_read_loop fd minb len acc = (k, bs, fd') \<Longrightarrow> 0 \<le> k \<Longrightarrow> k = int (length bs)"
proof (induction fd minb len acc arbitrary: k bs fd' rule: full_read_loop.induct)
  case (1 fd minb len acc)
  obtain t bs1 fd1 where r: "timeout_read fd (nat (len - int (length acc))) = (t, bs1, fd1)"
    by (cases "timeout_read fd (nat (len - int (length acc)))")
  show ?case
    using "1.prems" "1.IH" [OF _ r [symmetric] refl] full_read_loop.simps [of fd minb len acc] r
    by (auto split: if_splits)
qed

lemma full_read_length:
  "full_read fd minb len = (k, bs, fd') \<Longrightarrow> 0 \<le> k \<Longrightarrow> k = int (length bs)"
  unfolding full_read_def by (rule full_read_loop_length)

lemma find_data_bound: "find_data r i = Some p \<Longrightarrow> p \<le> length r"
proof (induction r i rule: find_data.induct)
  case (1 r i)
  show ?case
    using "1.prems" "1.IH" find_data.simps [of r i]
    by (auto split: if_splits)
qed

text \<open>One iteration keeps the write index behind the read index and the unread bytes intact.\<close>

lemma unstuff_step_inv:
  assumes "unstuff_step beyond s = Continue s' \<or> unstuff_step beyond s = Lone_dot s'"
    and "scan_i s < length (scan_buf s)"
    and "scan_j s \<le> scan_i s"
    and "drop (scan_i s) (scan_buf s) = drop (scan_i s) b"
    and "length (scan_buf s) = length b"
  shows "scan_j s' \<le> scan_i s' \<and> scan_i s' \<le> length b \<and>
         length (scan_buf s') = length b \<and>
         drop (scan_i s') (scan_buf s') = drop (scan_i s') b"
proof -
  have d: "drop (Suc (scan_i s)) (scan_buf s) = drop (Suc (scan_i s)) b"
    using assms(4) by (metis drop_Suc tl_drop)
  show ?thesis
    using assms d
    by (auto simp: unstuff_step_def Let_def drop_update_cancel split: if_splits)
qed

lemma scan_reach_inv:
  assumes "scan_reach beyond (scan_start b) s"
  shows "scan_j s \<le> scan_i s \<and> scan_i s \<le> length b \<and> length (scan_buf s) = length b \<and>
         drop (scan_i s) (scan_buf s) = drop (scan_i s) b"
  using assms
proof (induction rule: scan_reach.induct)
  case reach_start
  show ?case by (simp add: scan_start_def)
next
  case (reach_continue s s')
  then show ?case using unstuff_step_inv [of beyond s s' b] by simp
next
  case (reach_break s s')
  then show ?case using unstuff_step_inv [of beyond s s' b] by simp
qed

lemma unstuff_loop_reach:
  "unstuff_loop beyond s = (s', found) \<Longrightarrow> scan_reach beyond s0 s \<Longrightarrow>
   scan_reach beyond s0 s'"
proof (induction beyond s arbitrary: s' found rule: unstuff_loop.induct)
  case (1 beyond s)
  show ?case
  proof (cases "scan_i s < length (scan_buf s)")
    case False
    then show ?thesis using "1.prems" unstuff_loop.simps [of beyond s] by simp
  next
    case True
    show ?thesis
    proof (cases "unstuff_step beyond s")
      case (Continue s1)
      then have "unstuff_loop beyond s1 = (s', found)"
        using True "1.prems"(1) unstuff_loop.simps [of beyond s] by simp
      moreover have "scan_reach beyond s0 s1"
        using "1.prems"(2) True Continue by (rule reach_continue)
      ultimately show ?thesis using "1.IH" [OF True Continue] by blast
    next
      case (Lone_dot s1)
      then have "s' = s1" using True "1.prems"(1) unstuff_loop.simps [of beyond s] by simp
      then show ?thesis using "1.prems"(2) True Lone_dot by (auto intro: reach_break)
    qed
  qed
qed

text \<open>
  Claim C9. In every state the unstuffing loop of \<^verbatim>\<open>message_read_bsmtp\<close> goes through,
  started on a data section \<open>b\<close>, the write index \<open>j\<close> is at most the read index \<open>i\<close>,
  which is at most the length of \<open>b\<close>; the buffer keeps its length and the bytes from \<open>i\<close>
  on are still those of \<open>b\<close> (nothing unread was overwritten). The state the loop ends in
  is one of these states, and the body \<^verbatim>\<open>message_read_bsmtp\<close> returns is no longer
  than the data section it was compacted from (\<^verbatim>\<open>raw_len - pre_len\<close>).
\<close>

theorem unstuff_write_never_overtakes_read:
  "(scan_reach beyond (scan_start b) s \<longrightarrow>
      scan_j s \<le> scan_i s \<and> scan_i s \<le> length b \<and> length (scan_buf s) = length b \<and>
      drop (scan_i s) (scan_buf s) = drop (scan_i s) b) \<and>
   (unstuff_loop beyond (scan_start b) = (s', found) \<longrightarrow>
      scan_reach beyond (scan_start b) s') \<and>
   (message_read_bsmtp beyond fd m0 = (EX_OK, m, fd') \<longrightarrow>
      0 \<le> msg_len m \<and> msg_len m \<le> raw_len m - pre_len m \<and>
      int (length (the (msg m))) = msg_len m)"
proof (intro conjI impI)
  assume "scan_reach beyond (scan_start b) s"
  from scan_reach_inv [OF this]
  show "scan_j s \<le> scan_i s" "scan_i s \<le> length b" "length (scan_buf s) = length b"
    "drop (scan_i s) (scan_buf s) = drop (scan_i s) b"
    by simp_all
next
  assume "unstuff_loop beyond (scan_start b) = (s', found)"
  then show "scan_reach beyond (scan_start b) s'"
    by (rule unstuff_loop_reach) (rule reach_start)
next
  assume a: "message_read_bsmtp beyond fd m0 = (EX_OK, m, fd')"
  let ?m = "clear_message m0"
  obtain n bs fd1 where f: "full_read fd (max_len ?m + 1) (max_len ?m + 1) = (n, bs, fd1)"
    by (cases "full_read fd (max_len ?m + 1) (max_len ?m + 1)")
  from a f have n: "0 < n"
    by (auto simp: message_read_bsmtp_def Let_def ex_codes split: if_splits)
  with f have len: "n = int (length bs)" using full_read_length by fastforce
  from a f n obtain p where p: "find_data bs 0 = Some p"
    by (auto simp: message_read_bsmtp_def Let_def ex_codes split: if_splits option.splits)
  then have pb: "p \<le> length bs" by (rule find_data_bound)
  obtain s1 f1 where u: "unstuff_loop beyond (scan_start (drop p bs)) = (s1, f1)"
    by (cases "unstuff_loop beyond (scan_start (drop p bs))")
  have "scan_reach beyond (scan_start (drop p bs)) s1"
    using u by (rule unstuff_loop_reach) (rule reach_start)
  from scan_reach_inv [OF this]
  have inv: "scan_j s1 \<le> scan_i s1" "scan_i s1 \<le> length (drop p bs)"
    "length (scan_buf s1) = length (drop p bs)" by simp_all
  from a f n p u len pb inv
  show "0 \<le> msg_len m" "msg_len m \<le> raw_len m - pre_len m"
    "int (length (the (msg m))) = msg_len m"
    by (auto simp: message_read_bsmtp_def Let_def ex_codes split: if_splits)
qed

lemma unstuff_loop_example:
  "unstuff_loop (\<lambda>k. NUL) (scan_start (''..a'' @ [LF] @ ''.'' @ [LF])) =
     (\<lparr>scan_buf = ''.a'' @ [LF, LF] @ ''.'' @ [LF], scan_i = 4, scan_j = 3, scan_prev = LF,
       scan_reads = [0, 1, 1, 2, 3, 4, 5]\<rparr>, True)"
  by (simp add: eval_bsmtp)

lemma message_read_bsmtp_example:
  "message_read_bsmtp (\<lambda>k. NUL)
     [Bytes (''HELO'' @ [LF] @ ''DATA'' @ [LF] @ ''..a'' @ [LF] @ ''.'' @ [LF])]
     (message_init 100) =
   (EX_OK,
    \<lparr>max_len = 100, timeout = 0, mtype = MESSAGE_BSMTP,
      raw = Some (''HELO'' @ [LF] @ ''DATA'' @ [LF] @ ''.a'' @ [LF, LF] @ ''.'' @ [LF]),
      raw_len = 16, pre = ''HELO'' @ [LF] @ ''DATA'' @ [LF], pre_len = 10,
      msg = Some (''.a'' @ [LF]), msg_len = 3, post = ''.'' @ [LF], post_len = 2,
      is_spam = EX_TOOBIG, score = 0, threshold = 0, out = Some (''.a'' @ [LF]),
      out_len = 3, content_length = -1, raw_at = Raw_at 0, msg_at = Raw_at 10,
      out_at = Raw_at 10\<rparr>,
    [])"
  by (simp add: eval_bsmtp eval_read ex_codes)

text \<open>
  On the data section \<^verbatim>\<open>..a\n.\n\<close> the loop ends with \<open>j = 3\<close> behind \<open>i = 4\<close>, and the
  body of 3 bytes comes from a data section of 6.
\<close>

theorem unstuff_write_never_overtakes_read_witness:
  "scan_reach (\<lambda>k. NUL) (scan_start (''..a'' @ [LF] @ ''.'' @ [LF]))
     \<lparr>scan_buf = ''.a'' @ [LF, LF] @ ''.'' @ [LF], scan_i = 4, scan_j = 3, scan_prev = LF,
      scan_reads = [0, 1, 1, 2, 3, 4, 5]\<rparr> \<and>
   (3::nat) \<le> 4 \<and> (4::nat) \<le> length (''..a'' @ [LF] @ ''.'' @ [LF]) \<and>
   fst (message_read_bsmtp (\<lambda>k. NUL)
     [Bytes (''HELO'' @ [LF] @ ''DATA'' @ [LF] @ ''..a'' @ [LF] @ ''.'' @ [LF])]
     (message_init 100)) = EX_OK \<and>
   msg_len (fst (snd (message_read_bsmtp (\<lambda>k. NUL)
     [Bytes (''HELO'' @ [LF] @ ''DATA'' @ [LF] @ ''..a'' @ [LF] @ ''.'' @ [LF])]
     (message_init 100)))) = 3 \<and>
   (3::int) \<le> 16 - 10"
  using unstuff_write_never_overtakes_read [of "\<lambda>k. NUL" "''..a'' @ [LF] @ ''.'' @ [LF]"
    "\<lparr>scan_buf = ''.a'' @ [LF, LF] @ ''.'' @ [LF], scan_i = 4, scan_j = 3, scan_prev = LF,
      scan_reads = [0, 1, 1, 2, 3, 4, 5]\<rparr>"
    "\<lparr>scan_buf = ''.a'' @ [LF, LF] @ ''.'' @ [LF], scan_i = 4, scan_j = 3, scan_prev = LF,
      scan_reads = [0, 1, 1, 2, 3, 4, 5]\<rparr>" True]
    unstuff_loop_example
  by (simp only: message_read_bsmtp_example fst_conv snd_conv) simp

text \<open>
  Claim C10 (evidence against the code). The capture \<^verbatim>\<open>HELO\nDATA\nabc\n.\<close> has a data
  section of 5 bytes, \<^verbatim>\<open>abc\n.\<close>, whose last byte is a dot at the beginning of a line.
  There the lone-dot test reads \<^verbatim>\<open>m->msg[5]\<close>, one place past the data section and the
  capture, and \<^verbatim>\<open>m->msg[6]\<close> as well when that byte happens to be a carriage return.
\<close>

theorem lone_dot_test_reads_past_capture:
  "bsmtp_data_len (''HELO'' @ [LF] @ ''DATA'' @ [LF] @ ''abc'' @ [LF] @ ''.'') = 5 \<and>
   bsmtp_reads beyond (''HELO'' @ [LF] @ ''DATA'' @ [LF] @ ''abc'' @ [LF] @ ''.'') =
     [0, 1, 2, 3, 4, 5] @ (if beyond 0 = CR then [6] else [])"
  by (simp add: eval_bsmtp bsmtp_reads_def bsmtp_data_len_def)

text \<open>
  Claim C3 (evidence against the code). The transcript \<^verbatim>\<open>HELO\nDATA\n..a\n.\n\<close> has
  the data section \<^verbatim>\<open>..a\n.\n\<close>, whose first line begins with a stuffed dot.
  \<^verbatim>\<open>message_read_bsmtp\<close> unstuffs it to the body \<^verbatim>\<open>.a\n\<close>; \<^verbatim>\<open>message_write\<close> doubles
  a dot only after a line feed of the body, so it writes \<^verbatim>\<open>.a\n.\n\<close> after the
  preamble: the first dot of the data section is lost.
\<close>

theorem stuffing_round_trip_loses_first_dot:
  "message_write \<lparr>accepts = True, written = []\<rparr>
     (fst (snd (message_read_bsmtp (\<lambda>k. NUL)
        [Bytes (''HELO'' @ [LF] @ ''DATA'' @ [LF] @ ''..a'' @ [LF] @ ''.'' @ [LF])]
        (message_init 100)))) =
   (15, \<lparr>accepts = True,
          written = ''HELO'' @ [LF] @ ''DATA'' @ [LF] @ ''.a'' @ [LF] @ ''.'' @ [LF]\<rparr>)"
  by (simp only: message_read_bsmtp_example fst_conv snd_conv) (simp add: eval_write ex_codes)

text \<open>
  Claim C8 (evidence against the code). A capture whose very first line is the DATA line:
  the search only matches a DATA that follows a line feed, so it finds none and
  \<^verbatim>\<open>message_read_bsmtp\<close> returns \<^verbatim>\<open>EX_DATAERR\<close>. The same happens when the DATA line
  ends the capture (\<^verbatim>\<open>i < raw_len - 6\<close> stops one place early).
\<close>

theorem data_on_first_line_is_not_found:
  "fst (message_read_bsmtp beyond
     [Bytes (''DATA'' @ [CR, LF] @ ''hello'' @ [CR, LF] @ ''.'' @ [CR, LF])]
     (message_init 100)) = EX_DATAERR \<and>
   fst (message_read_bsmtp beyond
     [Bytes (''HELO'' @ [LF] @ ''DATA'' @ [LF])]
     (message_init 100)) = EX_DATAERR"
  by (simp add: eval_bsmtp eval_read ex_codes)

subsection \<open>The protocol codec\<close>

lemmas eval_libc = isspace_def isdigit_def digit_val_def digits_val_def tolower_def take_sign_def
  LONG_MAX_def strtol_def sscanf_def Let_def

lemmas eval_float = locale_safe_string_to_float_def wrap_int32_def

lemmas eval_filter = static_message_filter_def exchange_headers_def message_filter_def
  message_filter_with_failover_def build_request_def
  request_line_def show_int_def show_nat.simps put_string_def read_headers_def
  spamc_read_full_line_def read_line_loop.simps c_string_def header_loop.simps
  handle_spamd_header_def receive_body_def filter_failure_def try_to_connect_def
  copy_h_addr_list_def connect_loop.simps connect_failure_def MAX_CONNECT_RETRIES_def
  EXPANSION_ALLOWANCE_def view_def htons_def

lemma message_read_raw_example:
  "message_read_raw [Bytes ''hello''] (message_init 100) =
     (EX_OK,
      \<lparr>max_len = 100, timeout = 0, mtype = MESSAGE_RAW, raw = Some ''hello'', raw_len = 5,
        pre = [], pre_len = 0, msg = Some ''hello'', msg_len = 5, post = [], post_len = 0,
        is_spam = EX_TOOBIG, score = 0, threshold = 0, out = Some ''hello'', out_len = 5,
        content_length = -1, raw_at = Raw_at 0, msg_at = Raw_at 0, out_at = Raw_at 0\<rparr>,
      [])"
  by (simp add: message_read_raw_def eval_read clear_message_def message_init_def ex_codes)

text \<open>The numeric parser on the examples of the specification.\<close>

lemma numeric_parser_examples:
  "locale_safe_string_to_float ''100.033'' 20 = 100033 / 1000"
  "locale_safe_string_to_float ''-5.2'' 20 = - 52 / 10"
  "locale_safe_string_to_float ''7'' 20 = 7"
  "locale_safe_string_to_float ''3.'' 20 = 3"
  by (simp_all add: eval_float eval_libc)

text \<open>
  The check-only summary of the verdict \<^verbatim>\<open>0.35 / 5.0\<close>: the \<^verbatim>\<open>float\<close> nearest to 0.35 is
  below it, and \<^verbatim>\<open>%.1f\<close> prints \<^verbatim>\<open>0.3\<close>.
\<close>

lemma printed_floats:
  "show_f1 (float32 (7 / 20)) = ''0.3''"
  "show_f1 (float32 5) = ''5.0''"
  by code_simp+

lemma check_only_summary_example:
  "handle_spamd_header (message_init 100) (plain_flags\<lparr>check_only := True\<rparr>)
     ''Spam: True ; 0.35 / 5.0'' =
   (EX_OK,
    (message_init 100)\<lparr>score := 35 / 100, threshold := 5, is_spam := EX_ISSPAM,
      out := Some (''0.3/5.0'' @ [LF]), out_len := 8\<rparr>)"
  by (simp add: handle_spamd_header_def eval_libc eval_float printed_floats plain_flags_def
      message_init_def ex_codes EXPANSION_ALLOWANCE_def)

text \<open>
  A \<^verbatim>\<open>Content-length\<close> that does not fit the 32 bits of \<^verbatim>\<open>m->content_length\<close> is stored
  reduced: 4294967298 as 2, and 2147483648 as a negative number, which is refused.
\<close>

lemma content_length_is_32_bits:
  "handle_spamd_header (message_init 100) plain_flags ''Content-length: 4294967298'' =
     (EX_OK, (message_init 100)\<lparr>content_length := 2\<rparr>)"
  "handle_spamd_header (message_init 100) plain_flags ''Content-length: 2147483648'' =
     (EX_PROTOCOL, (message_init 100)\<lparr>content_length := - 2147483648\<rparr>)"
  by (simp_all add: handle_spamd_header_def eval_libc eval_float plain_flags_def
      message_init_def ex_codes)

text \<open>
  Claim C7 (evidence against the code). The token \<^verbatim>\<open>3.5abc\<close> is the number \<^verbatim>\<open>3.5\<close>
  followed by garbage. \<^verbatim>\<open>strtol\<close> stops at the garbage, so \<^verbatim>\<open>postdot\<close> is 5, but the loop
  that counts the decimal places runs to the end of the string and counts four: the result
  is \<open>3 + 5/10000\<close>, not \<open>3.5\<close>. Such a token reaches the parser from a verdict header,
  which is cut at white space only.
\<close>

theorem trailing_garbage_changes_the_value:
  "locale_safe_string_to_float ''3.5'' 20 = 35 / 10 \<and>
   locale_safe_string_to_float ''3.5abc'' 20 = 30005 / 10000 \<and>
   score (snd (handle_spamd_header (message_init 100) plain_flags
     ''Spam: True ; 3.5abc / 5.0'')) = 30005 / 10000"
  by (simp add: eval_float eval_libc handle_spamd_header_def plain_flags_def)

text \<open>
  Claim C1 (evidence against the code). The daemon answers with a header line that is
  neither a verdict nor a content length, \<^verbatim>\<open>X-Bogus: 1\<close>. \<^verbatim>\<open>_handle_spamd_header\<close> returns
  \<^verbatim>\<open>EX_PROTOCOL\<close> for it, but \<^verbatim>\<open>_message_filter\<close> tests that result with \<^verbatim>\<open>< 0\<close> and
  \<^verbatim>\<open>EX_PROTOCOL\<close> is positive: the line is skipped and the call returns \<^verbatim>\<open>EX_OK\<close> with the
  body as output.
\<close>

theorem unknown_header_is_skipped:
  "fst (handle_spamd_header (message_init 100) plain_flags ''X-Bogus: 1'') = EX_PROTOCOL \<and>
   \<not> EX_PROTOCOL < 0 \<and>
   message_filter
     \<lparr>socket_call = None, connect_call = (\<lambda>n a. None),
      daemon = (\<lambda>a. [Bytes (''SPAMD/1.1 0 EX_OK'' @ [CR, LF] @ ''X-Bogus: 1'' @ [CR, LF] @
                               ''Content-length: 2'' @ [CR, LF, CR, LF] @ ''hi'')])\<rparr>
     (\<lambda>k. NUL) \<lparr>sin_addr = 1, sin_port = 783\<rparr> None plain_flags
     (fst (snd (message_read_raw [Bytes ''hello''] (message_init 100)))) =
   Returns
     (EX_OK,
      \<lparr>max_len = 100, timeout = 0, mtype = MESSAGE_RAW, raw = Some ''hello'', raw_len = 5,
        pre = [], pre_len = 0, msg = Some ''hello'', msg_len = 5, post = [], post_len = 0,
        is_spam = EX_OUTPUTMESSAGE, score = 0, threshold = 0, out = Some ''hi'', out_len = 2,
        content_length = 2, raw_at = Raw_at 0, msg_at = Raw_at 0, out_at = Out_buf\<rparr>)"
  by (simp only: message_read_raw_example fst_conv snd_conv)
     (simp add: eval_filter eval_libc eval_float eval_read ex_codes plain_flags_def
        message_init_def)

text \<open>
  What \<^verbatim>\<open>_message_filter\<close> leaves of the message: the header loop never touches the
  captured message nor the limit, a call that is not check-only leaves the output to the
  body, and every failing return has put \<^verbatim>\<open>m->out\<close> back to \<^verbatim>\<open>m->msg\<close>.
\<close>

lemma handle_spamd_header_capture:
  assumes "handle_spamd_header m flags buf = (r, m')"
  shows "msg m' = msg m \<and> msg_len m' = msg_len m \<and> msg_at m' = msg_at m \<and>
         raw_at m' = raw_at m \<and> mtype m' = mtype m \<and> out_at m' = out_at m \<and>
         max_len m' = max_len m \<and>
         (is_spam m' \<noteq> is_spam m \<longrightarrow> is_spam m' = EX_ISSPAM \<or> is_spam m' = EX_NOTSPAM) \<and>
         (\<not> check_only flags \<longrightarrow> out m' = out m \<and> out_len m' = out_len m)"
  using assms by (auto simp: handle_spamd_header_def Let_def split: if_splits)

lemma header_loop_capture:
  assumes "header_loop flags m buf len sock = (r, m', buf', sock')"
  shows "msg m' = msg m \<and> msg_len m' = msg_len m \<and> msg_at m' = msg_at m \<and>
         raw_at m' = raw_at m \<and> mtype m' = mtype m \<and> out_at m' = out_at m \<and>
         max_len m' = max_len m \<and>
         (is_spam m' \<noteq> is_spam m \<longrightarrow> is_spam m' = EX_ISSPAM \<or> is_spam m' = EX_NOTSPAM) \<and>
         (\<not> check_only flags \<longrightarrow> out m' = out m \<and> out_len m' = out_len m)"
  using assms
proof (induction flags m buf len sock rule: header_loop.induct)
  case (1 flags m buf len sock)
  obtain f b1 l1 s1 where rl: "spamc_read_full_line buf sock 8188 len = (f, b1, l1, s1)"
    by (cases "spamc_read_full_line buf sock 8188 len")
  obtain r1 m1 where h: "handle_spamd_header m flags (c_string b1 l1) = (r1, m1)"
    by (cases "handle_spamd_header m flags (c_string b1 l1)")
  note keep = handle_spamd_header_capture [OF h]
  show ?case
  proof (cases "f = EX_OK \<and> \<not> (l1 = 0 \<and> b1 0 = NUL) \<and> \<not> r1 < 0")
    case True
    then have "header_loop flags m1 b1 l1 s1 = (r, m', buf', sock')"
      using "1.prems" rl h header_loop.simps [of flags m buf len sock]
      by (auto split: if_splits)
    from "1.IH" [OF rl [symmetric] refl refl _ _ h [symmetric] _ this] True keep
    show ?thesis by auto
  next
    case False
    then show ?thesis
      using "1.prems" rl h keep header_loop.simps [of flags m buf len sock]
      by (auto split: if_splits)
  qed
qed

lemma read_headers_capture:
  assumes "read_headers flags m buf len sock = r"
  shows "case r of
           Inl (ret, m') \<Rightarrow>
             out m' = msg m \<and> out_len m' = msg_len m \<and> out_at m' = msg_at m \<and>
             raw_at m' = raw_at m \<and> mtype m' = mtype m \<and>
             is_spam m' \<in> {is_spam m, EX_TOOBIG, EX_ISSPAM, EX_NOTSPAM}
         | Inr (m', sock') \<Rightarrow>
             msg m' = msg m \<and> msg_len m' = msg_len m \<and> msg_at m' = msg_at m \<and>
             raw_at m' = raw_at m \<and> mtype m' = mtype m \<and> max_len m' = max_len m \<and>
             is_spam m' \<in> {EX_TOOBIG, EX_ISSPAM, EX_NOTSPAM} \<and>
             (\<not> check_only flags \<longrightarrow> out m' = out m \<and> out_len m' = out_len m)"
proof -
  obtain f b1 l1 s1 where rl: "spamc_read_full_line buf sock 8188 len = (f, b1, l1, s1)"
    by (cases "spamc_read_full_line buf sock 8188 len")
  let ?m = "m\<lparr>score := 0, threshold := 0, is_spam := EX_TOOBIG\<rparr>"
  obtain r1 mm bb ss where hl: "header_loop flags ?m b1 l1 s1 = (r1, mm, bb, ss)"
    by (cases "header_loop flags ?m b1 l1 s1")
  from header_loop_capture [OF hl] assms rl hl show ?thesis
    by (auto simp: read_headers_def Let_def filter_failure_def split: if_splits)
qed

lemma exchange_headers_capture:
  assumes "exchange_headers net stack addr hent port username flags m = Returns r"
    and "out m = msg m" and "out_len m = msg_len m" and "out_at m = msg_at m"
  shows "case r of
           Inl (ret, m') \<Rightarrow>
             out m' = msg m \<and> out_len m' = msg_len m \<and> out_at m' = msg_at m \<and>
             raw_at m' = raw_at m \<and> mtype m' = mtype m \<and>
             is_spam m' \<in> {is_spam m, EX_TOOBIG, EX_ISSPAM, EX_NOTSPAM}
         | Inr (m', sock') \<Rightarrow>
             msg m' = msg m \<and> msg_len m' = msg_len m \<and> msg_at m' = msg_at m \<and>
             raw_at m' = raw_at m \<and> mtype m' = mtype m \<and>
             is_spam m' \<in> {EX_TOOBIG, EX_ISSPAM, EX_NOTSPAM}"
proof (cases "use_ssl flags")
  case True
  with assms show ?thesis by (auto simp: exchange_headers_def)
next
  case False
  let ?m1 = "m\<lparr>is_spam := EX_TOOBIG, out := Some [], out_len := 0, out_at := Out_buf\<rparr>"
  show ?thesis
  proof (cases "\<exists>buf len s. r = read_headers flags ?m1 buf len s")
    case True
    then obtain buf len s where "read_headers flags ?m1 buf len s = r" by auto
    from read_headers_capture [OF this] show ?thesis
      by (auto split: sum.splits)
  next
    case False
    with assms \<open>\<not> use_ssl flags\<close> show ?thesis
      by (auto simp: exchange_headers_def Let_def filter_failure_def
               split: if_splits option.splits outcome.splits)
  qed
qed






subsection \<open>The message processor\<close>

lemma process_stages_failed:
  "process_stages w hostname port username max_size in_fd flags =
     Returns (Inl (failed, ret, m, in_fd')) \<Longrightarrow> ret \<noteq> EX_OK"
  by (auto simp: process_stages_def Let_def split: prod.splits if_splits outcome.splits)

text \<open>
  Reading from a descriptor without read errors: nothing is lost, and a read that comes
  back short has reached the end of the input.
\<close>

lemma timeout_read_clean:
  "Fail \<notin> set fd \<Longrightarrow> timeout_read fd n = (k, bs, fd') \<Longrightarrow>
   0 \<le> k \<and> Fail \<notin> set fd' \<and> bs @ pending fd' = pending fd"
  by (induction fd n rule: timeout_read.induct) (auto split: if_splits)

lemma timeout_read_eof:
  "timeout_read fd n = (0, bs, fd') \<Longrightarrow> 0 < n \<Longrightarrow> fd' = [] \<and> bs = []"
  by (induction fd n rule: timeout_read.induct) (auto split: if_splits)

lemma full_read_loop_clean:
  "Fail \<notin> set fd \<Longrightarrow> full_read_loop fd minb len acc = (k, bs, fd') \<Longrightarrow>
   k = int (length bs) \<and> Fail \<notin> set fd' \<and> bs @ pending fd' = acc @ pending fd"
proof (induction fd minb len acc arbitrary: k bs fd' rule: full_read_loop.induct)
  case (1 fd minb len acc)
  obtain t bs1 fd1 where r: "timeout_read fd (nat (len - int (length acc))) = (t, bs1, fd1)"
    by (cases "timeout_read fd (nat (len - int (length acc)))")
  note c = timeout_read_clean [OF "1.prems"(1) r]
  show ?case
  proof (cases "int (length acc) < minb \<and> 0 < t")
    case True
    then have "full_read_loop fd1 minb len (acc @ bs1) = (k, bs, fd')"
      using "1.prems"(2) r full_read_loop.simps [of fd minb len acc] by simp
    from "1.IH" [OF _ r [symmetric] refl _ _ _ this] True c
    show ?thesis by simp
  next
    case False
    then show ?thesis
      using "1.prems" r c full_read_loop.simps [of fd minb len acc]
        timeout_read_length [OF r]
      by (auto split: if_splits)
  qed
qed

lemma full_read_loop_short:
  "full_read_loop fd minb len acc = (k, bs, fd') \<Longrightarrow> Fail \<notin> set fd \<Longrightarrow> k < minb \<Longrightarrow>
   minb \<le> len \<Longrightarrow> fd' = []"
proof (induction fd minb len acc arbitrary: k bs fd' rule: full_read_loop.induct)
  case (1 fd minb len acc)
  obtain t bs1 fd1 where r: "timeout_read fd (nat (len - int (length acc))) = (t, bs1, fd1)"
    by (cases "timeout_read fd (nat (len - int (length acc)))")
  note c = timeout_read_clean [OF "1.prems"(2) r]
  show ?case
  proof (cases "int (length acc) < minb \<and> 0 < t")
    case True
    then have "full_read_loop fd1 minb len (acc @ bs1) = (k, bs, fd')"
      using "1.prems"(1) r full_read_loop.simps [of fd minb len acc] by simp
    from "1.IH" [OF _ r [symmetric] refl _ _ this] True c "1.prems"
    show ?thesis by simp
  next
    case False
    then show ?thesis
      using "1.prems" r c full_read_loop.simps [of fd minb len acc]
        timeout_read_eof [of fd "nat (len - int (length acc))" bs1 fd1]
      by (auto split: if_splits)
  qed
qed

lemma full_write_accepts:
  "accepts fd \<Longrightarrow> snd (full_write fd bs) = fd\<lparr>written := written fd @ bs\<rparr>"
  by (simp add: full_write_def)

lemma dump_loop_clean:
  "Fail \<notin> set fd \<Longrightarrow> accepts ofd \<Longrightarrow>
   dump_loop fd ofd = ([], ofd\<lparr>written := written ofd @ pending fd\<rparr>)"
proof (induction fd ofd rule: dump_loop.induct)
  case (1 fd ofd)
  obtain k bs fd1 where r: "full_read fd 8192 8192 = (k, bs, fd1)"
    by (cases "full_read fd 8192 8192")
  then have l: "full_read_loop fd 8192 8192 [] = (k, bs, fd1)" by (simp add: full_read_def)
  note c = full_read_loop_clean [OF "1.prems"(1) l]
  show ?case
  proof (cases "0 < k")
    case True
    have "dump_loop fd1 (snd (full_write ofd bs)) =
        ([], (snd (full_write ofd bs))\<lparr>written := written (snd (full_write ofd bs)) @ pending fd1\<rparr>)"
      using "1.IH" [OF r [symmetric] refl True] c "1.prems"(2)
      by (simp add: full_write_accepts)
    then show ?thesis
      using True r c "1.prems"(2) dump_loop.simps [of fd ofd]
      by (simp add: full_write_accepts)
  next
    case False
    with c have "k = 0" "bs = []" by auto
    with full_read_loop_short [OF l "1.prems"(1)] have "fd1 = []" by simp
    with c \<open>bs = []\<close> have "pending fd = []" by simp
    then show ?thesis
      using \<open>k = 0\<close> \<open>fd1 = []\<close> r dump_loop.simps [of fd ofd] by simp
  qed
qed


lemma static_message_filter_failed:
  assumes "static_message_filter net stack addr hent port username flags m = Returns (ret, m')"
    and "ret \<noteq> EX_OK"
    and "out m = msg m" and "out_len m = msg_len m" and "out_at m = msg_at m"
  shows "out m' = msg m \<and> out_len m' = msg_len m \<and> out_at m' = msg_at m \<and>
         raw_at m' = raw_at m \<and> mtype m' = mtype m \<and>
         is_spam m' \<in> {is_spam m, EX_TOOBIG, EX_OUTPUTMESSAGE, EX_ISSPAM, EX_NOTSPAM}"
proof -
  from assms(1) obtain r where
    e: "exchange_headers net stack addr hent port username flags m = Returns r"
    by (auto simp: static_message_filter_def split: outcome.splits)
  note c = exchange_headers_capture [OF e assms(3-5)]
  show ?thesis
  proof (cases r)
    case (Inl a)
    with c e assms(1) show ?thesis
      by (auto simp: static_message_filter_def)
  next
    case (Inr b)
    obtain m2 sock where b: "b = (m2, sock)" by (cases b)
    with Inr e assms(1) have rb: "receive_body flags m2 sock = (ret, m')"
      by (simp add: static_message_filter_def)
    from c Inr b have k: "msg m2 = msg m" "msg_len m2 = msg_len m" "msg_at m2 = msg_at m"
      "raw_at m2 = raw_at m" "mtype m2 = mtype m"
      "is_spam m2 \<in> {EX_TOOBIG, EX_ISSPAM, EX_NOTSPAM}"
      by simp_all
    from rb assms(2) k show ?thesis
      by (auto simp: receive_body_def Let_def filter_failure_def split: if_splits prod.splits)
  qed
qed


text \<open>The raw-mode framing, and what \<^verbatim>\<open>message_cleanup\<close> and \<^verbatim>\<open>message_dump\<close> do after it.\<close>

lemma message_cleanup_raw:
  "raw_at m = Raw_at 0 \<or> raw_at m = Null \<Longrightarrow>
   out_at m = raw_at m \<or> out_at m = Null \<or> out_at m = Out_buf \<Longrightarrow>
   message_cleanup m = Returns (clear_message m)"
  by (auto simp: message_cleanup_def allocated_def)


lemma message_read_raw_failed:
  assumes "message_read_raw fd m0 = (ret, m, fd')" and "ret \<noteq> EX_OK" and "Fail \<notin> set fd"
  shows "message_cleanup m = Returns (clear_message m) \<and>
         (accepts ofd \<longrightarrow>
            message_dump fd' ofd m = ([], ofd\<lparr>written := written ofd @ pending fd\<rparr>))"
proof -
  let ?n = "max_len (clear_message m0) + 1"
  obtain k bs fd1 where r: "full_read_loop fd ?n ?n [] = (k, bs, fd1)"
    by (cases "full_read_loop fd ?n ?n []")
  note c = full_read_loop_clean [OF assms(3) r]
  from c have clean: "Fail \<notin> set fd1" and all: "bs @ pending fd1 = pending fd"
    and k: "k = int (length bs)"
    by simp_all
  note d = dump_loop_clean [OF clean]
  show ?thesis
  proof (cases "k \<le> 0")
    case True
    with k all have "pending fd1 = pending fd" by simp
    with True r assms(1,2) d [of ofd] show ?thesis
      by (auto simp: message_read_raw_def full_read_def Let_def message_dump_def
            message_cleanup_def clear_message_def)
  next
    case False
    with r assms(1,2) have m: "m = (clear_message m0)\<lparr>raw := Some bs, raw_len := k,
        mtype := MESSAGE_ERROR, raw_at := Raw_at 0\<rparr>" and fd': "fd' = fd1"
      by (auto simp: message_read_raw_def full_read_def Let_def ex_codes split: if_splits)
    have w: "accepts ofd \<Longrightarrow> snd (message_write ofd m) = ofd\<lparr>written := written ofd @ bs\<rparr>"
      using m k by (simp add: message_write_def clear_message_def ex_codes view_def
          full_write_accepts)
    have "accepts ofd \<Longrightarrow>
        message_dump fd' ofd m = ([], ofd\<lparr>written := written ofd @ pending fd\<rparr>)"
      using d [of "ofd\<lparr>written := written ofd @ bs\<rparr>"] w m fd' all
      by (simp add: message_dump_def)
    moreover have "message_cleanup m = Returns (clear_message m)"
      using m by (simp add: message_cleanup_def allocated_def clear_message_def)
    ultimately show ?thesis by simp
  qed
qed

lemma message_read_raw_ok:
  assumes "message_read_raw fd m0 = (EX_OK, m, fd')" and "Fail \<notin> set fd"
  shows "fd' = [] \<and> view (msg m) (msg_len m) = pending fd \<and> out m = msg m \<and>
         out_len m = msg_len m \<and> out_at m = msg_at m \<and> msg_at m = Raw_at 0 \<and>
         raw_at m = Raw_at 0 \<and> mtype m = MESSAGE_RAW \<and> is_spam m = EX_TOOBIG"
proof -
  let ?n = "max_len (clear_message m0) + 1"
  obtain k bs fd1 where r: "full_read_loop fd ?n ?n [] = (k, bs, fd1)"
    by (cases "full_read_loop fd ?n ?n []")
  note c = full_read_loop_clean [OF assms(2) r]
  from r assms(1) have m: "m = (clear_message m0)\<lparr>raw := Some bs, raw_len := k,
      mtype := MESSAGE_RAW, msg := Some bs, msg_len := k, out := Some bs, out_len := k,
      raw_at := Raw_at 0, msg_at := Raw_at 0, out_at := Raw_at 0\<rparr>"
    and fd': "fd' = fd1" and k: "k < ?n"
    by (auto simp: message_read_raw_def full_read_def Let_def ex_codes split: if_splits)
  from full_read_loop_short [OF r assms(2) k] fd' have e: "fd' = []" by simp
  with c fd' have "bs = pending fd" by simp
  with m e c show ?thesis by (simp add: view_def clear_message_def)
qed

lemmas eval_process = process_stages_def lookup_host_for_failover_def static_lookup_host_def
  example_world_def message_read_def message_read_raw_def clear_message_def message_init_def
  message_process_def process_fail_def message_dump_def dump_loop.simps
  message_cleanup_def allocated_def





text \<open>
  A check-only call in raw mode whose framing or filtering fails does return
  \<^verbatim>\<open>EX_NOTSPAM\<close>, with the line \<^verbatim>\<open>0/0\<close> written.
\<close>

lemma check_only_raw_failure:
  assumes "check_only flags" and "mode flags = SPAMC_RAW_MODE"
    and "process_stages w hostname port username max_size in_fd flags =
           Returns (Inl (failed, ret, m, in_fd'))"
    and "failed \<noteq> Resolution"
    and "Fail \<notin> set in_fd" and "accepts out_fd"
    and "0 \<le> max_size" and "max_size + EXPANSION_ALLOWANCE + 1 \<le> INT_MAX"
  shows "message_process w hostname port username max_size in_fd out_fd flags =
           Returns (EX_NOTSPAM, in_fd', out_fd\<lparr>written := written out_fd @ ''0/0'' @ [LF]\<rparr>)"
proof -
  let ?m0 = "(auto_message w)\<lparr>mtype := MESSAGE_NONE, max_len := max_size\<rparr>"
  obtain r0 hent where lk: "lookup_host_for_failover (gethostbyname w) hostname = (r0, hent)"
    by (cases "lookup_host_for_failover (gethostbyname w) hostname")
  obtain r1 m1 fd1 where rd: "message_read_raw in_fd ?m0 = (r1, m1, fd1)"
    by (cases "message_read_raw in_fd ?m0")
  from assms(3,4) lk have r0: "r0 = EX_OK"
    by (auto simp: process_stages_def Let_def split: if_splits)
  have c: "message_cleanup m = Returns (clear_message m)"
  proof (cases "r1 = EX_OK")
    case False
    with assms(2,3) lk r0 rd have "m = m1"
      by (auto simp: process_stages_def Let_def message_read_def)
    with message_read_raw_failed [OF rd False assms(5), of out_fd] show ?thesis by simp
  next
    case True
    note ok = message_read_raw_ok [OF rd [unfolded True] assms(5)]
    from assms(2,3) lk r0 rd True have
      f: "static_message_filter (netw w) (stack_garbage w) None
            (Some (case hent of None \<Rightarrow> [] | Some l \<Rightarrow> l)) port username flags m1 =
          Returns (ret, m)"
      and ret: "ret \<noteq> EX_OK"
      by (auto simp: process_stages_def Let_def message_read_def
            message_filter_with_failover_def split: outcome.splits if_splits prod.splits)
    from ok have pre: "out m1 = msg m1" "out_len m1 = msg_len m1" "out_at m1 = msg_at m1"
      by simp_all
    from static_message_filter_failed [OF f ret pre] ok show ?thesis
      by (simp add: message_cleanup_raw)
  qed
  with assms(1,3,6) show ?thesis
    by (simp add: message_process_def process_fail_def full_write_def)
qed

text \<open>
  A batched-SMTP transcript, check-only, every connection refused: filtering fails with
  \<^verbatim>\<open>EX_UNAVAILABLE\<close> and leaves \<^verbatim>\<open>m->out\<close> at \<^verbatim>\<open>m->msg\<close>, 10 bytes into \<^verbatim>\<open>m->raw\<close>.
\<close>

lemma stages_refused_bsmtp:
  "process_stages (example_world (\<lambda>n a. Some ECONNREFUSED) []) ''spamd.example'' 783 None 100
     [Bytes (''HELO'' @ [LF] @ ''DATA'' @ [LF] @ ''hi'' @ [LF] @ ''.'' @ [LF])]
     (plain_flags\<lparr>mode := SPAMC_BSMTP_MODE, check_only := True\<rparr>) =
   Returns
     (Inl (Filtering, EX_UNAVAILABLE,
           \<lparr>max_len = 100, timeout = 0, mtype = MESSAGE_BSMTP,
             raw = Some (''HELO'' @ [LF] @ ''DATA'' @ [LF] @ ''hi'' @ [LF] @ ''.'' @ [LF]),
             raw_len = 15, pre = ''HELO'' @ [LF] @ ''DATA'' @ [LF], pre_len = 10,
             msg = Some (''hi'' @ [LF]), msg_len = 3, post = ''.'' @ [LF], post_len = 2,
             is_spam = EX_TOOBIG, score = 0, threshold = 0, out = Some (''hi'' @ [LF]),
             out_len = 3, content_length = -1, raw_at = Raw_at 0, msg_at = Raw_at 10,
             out_at = Raw_at 10\<rparr>,
           []))"
  by (simp add: process_stages_def lookup_host_for_failover_def static_lookup_host_def
      example_world_def message_read_def eval_bsmtp eval_read eval_filter ex_codes
      plain_flags_def)

text \<open>
  Claim C5 (evidence against the code). Two check-only calls that do not return
  \<^verbatim>\<open>EX_NOTSPAM\<close>. In the first the transcript is batched SMTP and every connection is
  refused: at \<^verbatim>\<open>FAIL\<close>, \<^verbatim>\<open>m->out\<close> is \<^verbatim>\<open>m->raw + 10\<close>, neither \<^verbatim>\<open>NULL\<close> nor \<^verbatim>\<open>m->raw\<close>, and
  \<^verbatim>\<open>message_cleanup\<close> passes it to \<^verbatim>\<open>free\<close>. In the second the host name does not resolve:
  the \<^verbatim>\<open>struct message\<close> was never initialised, and \<^verbatim>\<open>message_cleanup\<close> passes to \<^verbatim>\<open>free\<close>
  whatever its pointers hold. Neither call has a defined result.
\<close>

theorem check_only_failure_frees_bad_pointer:
  "message_process (example_world (\<lambda>n a. Some ECONNREFUSED) []) ''spamd.example'' 783 None 100
     [Bytes (''HELO'' @ [LF] @ ''DATA'' @ [LF] @ ''hi'' @ [LF] @ ''.'' @ [LF])]
     \<lparr>accepts = True, written = []\<rparr>
     (plain_flags\<lparr>mode := SPAMC_BSMTP_MODE, check_only := True\<rparr>) = Undefined \<and>
   message_process
     ((example_world (\<lambda>n a. None) [])\<lparr>gethostbyname := (\<lambda>h. Inl HOST_NOT_FOUND)\<rparr>)
     ''nowhere.example'' 783 None 100 [Bytes ''hello''] \<lparr>accepts = True, written = []\<rparr>
     (plain_flags\<lparr>check_only := True\<rparr>) = Undefined"
proof -
  have "message_process (example_world (\<lambda>n a. Some ECONNREFUSED) []) ''spamd.example'' 783
      None 100 [Bytes (''HELO'' @ [LF] @ ''DATA'' @ [LF] @ ''hi'' @ [LF] @ ''.'' @ [LF])]
      \<lparr>accepts = True, written = []\<rparr>
      (plain_flags\<lparr>mode := SPAMC_BSMTP_MODE, check_only := True\<rparr>) = Undefined"
    unfolding message_process_def stages_refused_bsmtp
    by (simp add: process_fail_def message_cleanup_def allocated_def plain_flags_def)
  moreover have "message_process
      ((example_world (\<lambda>n a. None) [])\<lparr>gethostbyname := (\<lambda>h. Inl HOST_NOT_FOUND)\<rparr>)
      ''nowhere.example'' 783 None 100 [Bytes ''hello''] \<lparr>accepts = True, written = []\<rparr>
      (plain_flags\<lparr>check_only := True\<rparr>) = Undefined"
    by (simp add: eval_process ex_codes plain_flags_def)
  ultimately show ?thesis by simp
qed

text \<open>
  A call that succeeds writes the daemon's answer and returns \<^verbatim>\<open>m.is_spam\<close> as
  \<^verbatim>\<open>message_cleanup\<close> has just reset it, \<^verbatim>\<open>EX_TOOBIG\<close>.
\<close>

lemma success_returns_cleared_verdict:
  "message_process
     (example_world (\<lambda>n a. None)
        [Bytes (''SPAMD/1.1 0 EX_OK'' @ [CR, LF] @ ''Content-length: 2'' @ [CR, LF, CR, LF] @
                ''hi'')])
     ''spamd.example'' 783 None 100 [Bytes ''hello''] \<lparr>accepts = True, written = []\<rparr>
     plain_flags =
   Returns (EX_TOOBIG, [], \<lparr>accepts = True, written = ''hi''\<rparr>)"
  by (simp add: eval_process eval_read eval_filter eval_libc eval_float eval_write ex_codes
      plain_flags_def)

end
